theory Spec2Isabelle
  imports Complex_Main "HOL-Library.AList" "HOL-Library.Char_ord" "HOL-Library.List_Lexorder"
    "HOL-Library.Monad_Syntax"
begin

section \<open>Strings\<close>

text \<open>
  A JavaScript string is a sequence of UTF-16 code units. The directive texts handled by the
  plugin are modelled as \<^typ>\<open>string\<close>, that is, as lists of code units below 256; the
  character classes of the regular expressions are written out for that range.
  The edit distance only compares code units for equality and is modelled over lists of any
  element type.
\<close>

definition startsWith :: "'a list \<Rightarrow> 'a list \<Rightarrow> bool" where
  \<comment> \<open>\<open>text.startsWith(p)\<close>\<close>
  "startsWith text p = (take (length p) text = p)"

definition isWhiteSpace :: "char \<Rightarrow> bool" where
  \<comment> \<open>the class \<open>\s\<close>: tab, line feed, vertical tab, form feed, carriage return, space,
      no-break space\<close>
  "isWhiteSpace c = (c \<in> {CHR 0x09, CHR 0x0A, CHR 0x0B, CHR 0x0C, CHR 0x0D, CHR 0x20, CHR 0xA0})"

definition isLineTerminator :: "char \<Rightarrow> bool" where
  \<comment> \<open>the characters that \<open>.\<close> does not match\<close>
  "isLineTerminator c = (c \<in> {CHR 0x0A, CHR 0x0D})"

definition trim :: "string \<Rightarrow> string" where
  \<comment> \<open>\<open>s.trim()\<close>: white space and line terminators go from both ends\<close>
  "trim s = rev (dropWhile isWhiteSpace (rev (dropWhile isWhiteSpace s)))"

definition quoted :: "string \<Rightarrow> string" where
  \<comment> \<open>the template \<open>'${s}'\<close>\<close>
  "quoted s = [CHR 0x27] @ s @ [CHR 0x27]"

definition doubleQuoted :: "string \<Rightarrow> string" where
  \<comment> \<open>the template \<open>"${s}"\<close>\<close>
  "doubleQuoted s = [CHR 0x22] @ s @ [CHR 0x22]"

definition truthy :: "string option \<Rightarrow> bool" where
  \<comment> \<open>\<open>if (v)\<close> for a value that is a string or \<open>null\<close>: the empty string counts as false\<close>
  "truthy v = (case v of None \<Rightarrow> False | Some s \<Rightarrow> s \<noteq> [])"

section \<open>The directive matcher (ast.ts)\<close>

text \<open>
  \<open>rest.match(/^[\s]*[;:][\s]*.+/)\<close>: the pattern is anchored at the start only, so it
  matches when some whitespace, one of \<open>;\<close> and \<open>:\<close>, some whitespace and at least one
  character other than a line terminator can be read from the start of \<open>rest\<close>.
\<close>

fun spacesThenAny :: "string \<Rightarrow> bool" where
  \<comment> \<open>\<open>[\s]*.+\<close> read from the start\<close>
  "spacesThenAny [] = False"
| "spacesThenAny (c # cs) = (\<not> isLineTerminator c \<or> (isWhiteSpace c \<and> spacesThenAny cs))"

fun optionsPattern :: "string \<Rightarrow> bool" where
  \<comment> \<open>\<open>^[\s]*[;:][\s]*.+\<close>\<close>
  "optionsPattern [] = False"
| "optionsPattern (c # cs) =
     (((c = CHR '';'' \<or> c = CHR '':'') \<and> spacesThenAny cs) \<or> (isWhiteSpace c \<and> optionsPattern cs))"

fun matchPrefixed :: "string \<Rightarrow> string list \<Rightarrow> string option" where
  \<comment> \<open>the loop \<open>for (const directive of validDirectives)\<close> of \<open>matchDirective\<close>\<close>
  "matchPrefixed text [] = None"
| "matchPrefixed text (directive # ds) =
     (if startsWith text directive then
        (let rest = drop (length directive) text in
         if rest = [] \<or> optionsPattern rest then Some directive
         else matchPrefixed text ds)
      else matchPrefixed text ds)"

definition matchDirective :: "string \<Rightarrow> string list \<Rightarrow> string option" where
  "matchDirective text validDirectives =
     (if text \<in> set validDirectives then Some text
      else matchPrefixed text validDirectives)"

section \<open>The compiler interface\<close>

text \<open>
  The plugin reads the vocabulary from the interface \<open>DirectiveRegistry\<close> through the type
  checker. A member of the interface is a directive name together with its type; the type
  \<open>never\<close> says that the directive takes neither a provider nor options.
  The calls into the type checker sit in \<open>try\<close> blocks, so a call either returns or throws.
\<close>

record registryProperty =
  propName :: string
  propIsNever :: bool

definition acceptsOptions :: "registryProperty \<Rightarrow> bool" where
  "acceptsOptions p = (\<not> propIsNever p)"

datatype 'a outcome = Throws | Returns 'a

type_synonym symbol = nat

datatype tsType =
    StringLiteralType string
  | UnionType "tsType list"
  | InterfaceType "registryProperty list"
  | OtherType

record typeChecker =
  resolveName :: "string \<Rightarrow> string \<Rightarrow> symbol option outcome"
    \<comment> \<open>\<open>resolveName(name, file, flags, false)\<close>, by the name looked up and the file's name\<close>
  getDeclaredTypeOfSymbol :: "symbol \<Rightarrow> tsType option outcome"
  isLiteralAssignableTo :: "nat \<Rightarrow> string \<Rightarrow> tsType \<Rightarrow> bool"
    \<comment> \<open>\<open>isTypeAssignableTo(getTypeAtLocation(node), type)\<close> for the string literal
        \<open>node\<close>, given by its start and its text\<close>

definition getPropertiesOfType :: "tsType \<Rightarrow> registryProperty list" where
  "getPropertiesOfType t = (case t of InterfaceType ps \<Rightarrow> ps | _ \<Rightarrow> [])"

fun includesStr :: "string \<Rightarrow> string \<Rightarrow> bool" where
  \<comment> \<open>\<open>s.includes(p)\<close>\<close>
  "includesStr [] p = (p = [])"
| "includesStr (c # cs) p = (startsWith (c # cs) p \<or> includesStr cs p)"

fun findSymbol :: "typeChecker \<Rightarrow> string \<Rightarrow> string list \<Rightarrow> symbol option outcome" where
  \<comment> \<open>the loop \<open>for (const file of program.getSourceFiles())\<close>, over the files' names\<close>
  "findSymbol tc name [] = Returns None"
| "findSymbol tc name (file # files) =
     (if includesStr file ''node_modules'' \<and> \<not> includesStr file ''typescript-plugin-directives''
      then findSymbol tc name files
      else (case resolveName tc name file of
              Throws \<Rightarrow> Throws
            | Returns (Some symbol) \<Rightarrow> Returns (Some symbol)
            | Returns None \<Rightarrow> findSymbol tc name files))"

definition declaredType :: "typeChecker \<Rightarrow> string \<Rightarrow> string list \<Rightarrow> tsType option outcome" where
  \<comment> \<open>the symbol of \<open>name\<close> and its declared type, as every registry lookup starts\<close>
  "declaredType tc name files =
     (case findSymbol tc name files of
        Throws \<Rightarrow> Throws
      | Returns None \<Rightarrow> Returns None
      | Returns (Some symbol) \<Rightarrow> getDeclaredTypeOfSymbol tc symbol)"

definition getValidDirectives :: "typeChecker \<Rightarrow> string list \<Rightarrow> string list" where
  \<comment> \<open>the keys of \<open>DirectiveRegistry\<close>; the \<open>catch\<close> block returns the list as it is, still
      empty when one of the calls above has thrown\<close>
  "getValidDirectives tc files =
     (case declaredType tc ''DirectiveRegistry'' files of
        Throws \<Rightarrow> []
      | Returns None \<Rightarrow> []
      | Returns (Some registryType) \<Rightarrow> map propName (getPropertiesOfType registryType))"

definition directiveSupportsOptions :: "typeChecker \<Rightarrow> string list \<Rightarrow> string \<Rightarrow> bool" where
  \<comment> \<open>true if the directive's type in the registry is not \<open>never\<close>\<close>
  "directiveSupportsOptions tc files baseDirective =
     (case declaredType tc ''DirectiveRegistry'' files of
        Throws \<Rightarrow> False
      | Returns None \<Rightarrow> False
      | Returns (Some registryType) \<Rightarrow>
          (case find (\<lambda>p. propName p = baseDirective) (getPropertiesOfType registryType) of
             None \<Rightarrow> False
           | Some property \<Rightarrow> \<not> propIsNever property))"

definition builtinRegistry :: "registryProperty list" where
  \<comment> \<open>the members of \<open>DirectiveRegistry\<close> in types/global.d.ts\<close>
  "builtinRegistry =
     [\<lparr>propName = ''use strict'', propIsNever = True\<rparr>,
      \<lparr>propName = ''use server'', propIsNever = True\<rparr>,
      \<lparr>propName = ''use client'', propIsNever = True\<rparr>,
      \<lparr>propName = ''use no memo'', propIsNever = True\<rparr>]"

definition builtinChecker :: typeChecker where
  \<comment> \<open>a type checker that knows types/global.d.ts and nothing else: the registry, and the
      type \<open>Directive\<close>, which is the union of the registry's keys when every member is
      \<open>never\<close>\<close>
  "builtinChecker =
     \<lparr>resolveName = (\<lambda>name file.
        Returns (if name = ''DirectiveRegistry'' then Some 0
                 else if name = ''Directive'' then Some 1 else None)),
      getDeclaredTypeOfSymbol = (\<lambda>symbol.
        Returns (Some (if symbol = 0 then InterfaceType builtinRegistry
                       else UnionType (map (\<lambda>p. StringLiteralType (propName p)) builtinRegistry)))),
      isLiteralAssignableTo = (\<lambda>start text t.
        (case t of
           UnionType members \<Rightarrow> StringLiteralType text \<in> set members
         | StringLiteralType v \<Rightarrow> v = text
         | _ \<Rightarrow> False))\<rparr>"

section \<open>Syntax trees\<close>

text \<open>
  The nodes of the compiler's syntax tree, as far as the plugin tells them apart. Every other
  kind of node is an \<open>OtherNode\<close> with its children. The children that the plugin does not
  name (parameters, decorators, type annotations, binding patterns) are kept in a list of
  their own, so that a traversal reaches what lies below them.
\<close>

datatype modifier = ExportKeyword | DefaultKeyword | OtherModifier

datatype functionKind = FunctionDeclaration | FunctionExpression | MethodDeclaration | ArrowFunction

datatype exportClause =
    NamedExports "(string option \<times> string) list"
      \<comment> \<open>the export specifiers, each with its \<open>propertyName\<close> (if any) and its \<open>name\<close>\<close>
  | NamespaceExport

datatype node =
    StringLiteral nat string
      \<comment> \<open>\<open>getStart()\<close> and \<open>text\<close>\<close>
  | ExpressionStatement node
  | Block "node list"
  | FunctionLike functionKind "modifier list" "string option" "node list" "node option"
      \<comment> \<open>kind, modifiers, name, the children before the body, body\<close>
  | VariableStatement "modifier list" "node list"
      \<comment> \<open>modifiers and the declarations of the declaration list\<close>
  | VariableDeclaration "string option" "node list" "node option"
      \<comment> \<open>the name if it is an identifier, the other children, initializer\<close>
  | ExportAssignment bool node
      \<comment> \<open>\<open>isExportEquals\<close> and the expression\<close>
  | ExportDeclaration "exportClause option" "string option"
      \<comment> \<open>export clause and module specifier\<close>
  | OtherNode "node list"

datatype versionToken = NoVersion | VersionString string
  \<comment> \<open>\<open>(sourceFile as any).version\<close>: the language service's version string, or \<open>undefined\<close>\<close>

record sourceFile =
  objectId :: nat
    \<comment> \<open>the identity of the object, which keys the \<open>WeakMap\<close> of the cache\<close>
  fileName :: string
  version :: versionToken
  isDeclarationFile :: bool
  statements :: "node list"

record program =
  checker :: typeChecker
  sourceFiles :: "sourceFile list"

definition fileNames :: "program \<Rightarrow> string list" where
  "fileNames p = map fileName (sourceFiles p)"

definition getSourceFile :: "program \<Rightarrow> string \<Rightarrow> sourceFile option" where
  "getSourceFile p name = find (\<lambda>f. fileName f = name) (sourceFiles p)"

fun forEachChild :: "node \<Rightarrow> node list" where
  \<comment> \<open>the children of a node, in the order in which \<open>ts.forEachChild\<close> visits them\<close>
  "forEachChild (StringLiteral start text) = []"
| "forEachChild (ExpressionStatement expression) = [expression]"
| "forEachChild (Block stmts) = stmts"
| "forEachChild (FunctionLike kind modifiers name others body) =
     others @ (case body of None \<Rightarrow> [] | Some b \<Rightarrow> [b])"
| "forEachChild (VariableStatement modifiers declarations) = declarations"
| "forEachChild (VariableDeclaration name others initializer) =
     others @ (case initializer of None \<Rightarrow> [] | Some e \<Rightarrow> [e])"
| "forEachChild (ExportAssignment isExportEquals expression) = [expression]"
| "forEachChild (ExportDeclaration exportClause moduleSpecifier) = []"
| "forEachChild (OtherNode children) = children"

lemma size_forEachChild: "c \<in> set (forEachChild n) \<Longrightarrow> size c < size n"
proof (cases n)
  case (Block stmts)
  then show "c \<in> set (forEachChild n) \<Longrightarrow> size c < size n"
    using size_list_estimation' [of c stmts "size c" size] by auto
next
  case (FunctionLike kind modifiers name others body)
  then show "c \<in> set (forEachChild n) \<Longrightarrow> size c < size n"
    using size_list_estimation' [of c others "size c" size] by (auto split: option.splits)
next
  case (VariableStatement modifiers declarations)
  then show "c \<in> set (forEachChild n) \<Longrightarrow> size c < size n"
    using size_list_estimation' [of c declarations "size c" size] by auto
next
  case (VariableDeclaration name others initializer)
  then show "c \<in> set (forEachChild n) \<Longrightarrow> size c < size n"
    using size_list_estimation' [of c others "size c" size] by (auto split: option.splits)
next
  case (OtherNode children)
  then show "c \<in> set (forEachChild n) \<Longrightarrow> size c < size n"
    using size_list_estimation' [of c children "size c" size] by auto
qed auto

section \<open>The per-file scanner (ast.ts)\<close>

type_synonym directiveMap = "(string \<times> string) list"
  \<comment> \<open>a \<open>Map<string, string>\<close>: the entries in insertion order; \<open>set\<close> is
      \<^const>\<open>AList.update\<close>, \<open>get\<close> is \<^const>\<open>map_of\<close>\<close>

record scanResult =
  moduleDirectives :: "string list"
  exportDirectives :: directiveMap

definition getFirstDirective :: "node list \<Rightarrow> string list \<Rightarrow> string option" where
  "getFirstDirective stmts validDirectives =
     (case stmts of
        [] \<Rightarrow> None
      | firstStmt # _ \<Rightarrow>
          (case firstStmt of
             ExpressionStatement (StringLiteral start text) \<Rightarrow> matchDirective text validDirectives
           | _ \<Rightarrow> None))"

definition getTopLevelDirectives :: "sourceFile \<Rightarrow> program \<Rightarrow> string list" where
  "getTopLevelDirectives sf prog =
     (let validDirectives = getValidDirectives (checker prog) (fileNames prog);
          directive = getFirstDirective (statements sf) validDirectives
      in if truthy directive then [the directive] else [])"

definition getDirectiveOfNode :: "node \<Rightarrow> string list \<Rightarrow> string option" where
  \<comment> \<open>function declarations, function expressions, methods and arrow functions whose body
      is a block\<close>
  "getDirectiveOfNode n validDirectives =
     (case n of
        FunctionLike kind modifiers name others (Some (Block stmts)) \<Rightarrow>
          getFirstDirective stmts validDirectives
      | _ \<Rightarrow> None)"

definition recordDeclaration ::
  "string list \<Rightarrow> string option \<Rightarrow> string \<Rightarrow> node \<Rightarrow> directiveMap \<Rightarrow> directiveMap" where
  \<comment> \<open>what the first pass does for one declaration: \<open>name\<close> and the node that may carry
      the inline directive\<close>
  "recordDeclaration validDirectives moduleDirective name fn declarationDirectives =
     (let inlineDirective = getDirectiveOfNode fn validDirectives
      in if truthy inlineDirective then
           AList.update name (the inlineDirective) declarationDirectives
         else if truthy moduleDirective then
           AList.update name (the moduleDirective) declarationDirectives
         else declarationDirectives)"

fun recordVariable ::
  "string list \<Rightarrow> string option \<Rightarrow> node \<Rightarrow> directiveMap \<Rightarrow> directiveMap" where
  \<comment> \<open>the body of the loop over the declarations of a variable statement (first pass)\<close>
  "recordVariable validDirectives moduleDirective
       (VariableDeclaration (Some name) others (Some initializer)) declarationDirectives =
     recordDeclaration validDirectives moduleDirective name initializer declarationDirectives"
| "recordVariable validDirectives moduleDirective decl declarationDirectives = declarationDirectives"

fun collectAt :: "string list \<Rightarrow> string option \<Rightarrow> node \<Rightarrow> directiveMap \<Rightarrow> directiveMap" where
  \<comment> \<open>\<open>collectDeclarationDirectives\<close> on one node, before it descends\<close>
  "collectAt validDirectives moduleDirective
       (FunctionLike FunctionDeclaration modifiers (Some name) others body) declarationDirectives =
     recordDeclaration validDirectives moduleDirective name
       (FunctionLike FunctionDeclaration modifiers (Some name) others body) declarationDirectives"
| "collectAt validDirectives moduleDirective (VariableStatement modifiers declarations)
       declarationDirectives =
     fold (recordVariable validDirectives moduleDirective) declarations declarationDirectives"
| "collectAt validDirectives moduleDirective n declarationDirectives = declarationDirectives"

function collectDeclarationDirectives ::
  "string list \<Rightarrow> string option \<Rightarrow> node \<Rightarrow> directiveMap \<Rightarrow> directiveMap" where
  "collectDeclarationDirectives validDirectives moduleDirective n declarationDirectives =
     fold (collectDeclarationDirectives validDirectives moduleDirective) (forEachChild n)
       (collectAt validDirectives moduleDirective n declarationDirectives)"
  by pat_completeness auto
termination
  by (relation "measure (\<lambda>(validDirectives, moduleDirective, n, m). size n)")
    (auto simp: size_forEachChild)

declare collectDeclarationDirectives.simps [simp del]

definition exportIfDirective :: "directiveMap \<Rightarrow> string \<Rightarrow> string \<Rightarrow> directiveMap \<Rightarrow> directiveMap" where
  \<comment> \<open>\<open>const directive = declarationDirectives.get(localName);
      if (directive) exportDirectives.set(exportedName, directive)\<close>\<close>
  "exportIfDirective declarationDirectives localName exportedName exports =
     (let directive = map_of declarationDirectives localName
      in if truthy directive then AList.update exportedName (the directive) exports
         else exports)"

fun exportVariable :: "directiveMap \<Rightarrow> node \<Rightarrow> directiveMap \<Rightarrow> directiveMap" where
  \<comment> \<open>the body of the loop over the declarations of an exported variable statement\<close>
  "exportVariable declarationDirectives (VariableDeclaration (Some name) others initializer) exports =
     exportIfDirective declarationDirectives name name exports"
| "exportVariable declarationDirectives decl exports = exports"

definition exportSpecifier ::
  "directiveMap \<Rightarrow> string option \<times> string \<Rightarrow> directiveMap \<Rightarrow> directiveMap" where
  \<comment> \<open>the body of the loop over the elements of \<open>export { local as exported }\<close>\<close>
  "exportSpecifier declarationDirectives element exports =
     (let exportedName = snd element;
          localName = (case fst element of Some propertyName \<Rightarrow> propertyName | None \<Rightarrow> snd element)
      in exportIfDirective declarationDirectives localName exportedName exports)"

fun visitAt ::
  "string list \<Rightarrow> string option \<Rightarrow> directiveMap \<Rightarrow> node \<Rightarrow> directiveMap \<Rightarrow> directiveMap" where
  \<comment> \<open>the second pass (\<open>visit\<close>) on one node, before it descends\<close>
  "visitAt validDirectives moduleDirective declarationDirectives
       (FunctionLike FunctionDeclaration modifiers (Some name) others body) exports =
     (let isExported = (ExportKeyword \<in> set modifiers);
          isDefault = (DefaultKeyword \<in> set modifiers)
      in if isExported then
           (let directive = map_of declarationDirectives name
            in if truthy directive then
                 (let exports' = AList.update name (the directive) exports
                  in if isDefault then AList.update ''default'' (the directive) exports'
                     else exports')
               else exports)
         else exports)"
| "visitAt validDirectives moduleDirective declarationDirectives
       (VariableStatement modifiers declarations) exports =
     (if ExportKeyword \<in> set modifiers
      then fold (exportVariable declarationDirectives) declarations exports
      else exports)"
| "visitAt validDirectives moduleDirective declarationDirectives
       (ExportAssignment isExportEquals expression) exports =
     (if \<not> isExportEquals then
        (let inlineDirective = getDirectiveOfNode expression validDirectives
         in if truthy inlineDirective then AList.update ''default'' (the inlineDirective) exports
            else if truthy moduleDirective then AList.update ''default'' (the moduleDirective) exports
            else exports)
      else exports)"
| "visitAt validDirectives moduleDirective declarationDirectives
       (ExportDeclaration (Some (NamedExports elements)) moduleSpecifier) exports =
     fold (exportSpecifier declarationDirectives) elements exports"
| "visitAt validDirectives moduleDirective declarationDirectives n exports = exports"

function visit ::
  "string list \<Rightarrow> string option \<Rightarrow> directiveMap \<Rightarrow> node \<Rightarrow> directiveMap \<Rightarrow> directiveMap" where
  "visit validDirectives moduleDirective declarationDirectives n exports =
     fold (visit validDirectives moduleDirective declarationDirectives) (forEachChild n)
       (visitAt validDirectives moduleDirective declarationDirectives n exports)"
  by pat_completeness auto
termination
  by (relation "measure (\<lambda>(validDirectives, moduleDirective, declarationDirectives, n, m). size n)")
    (auto simp: size_forEachChild)

declare visit.simps [simp del]

definition scanFileDirectives :: "sourceFile \<Rightarrow> program \<Rightarrow> scanResult" where
  \<comment> \<open>both passes start at the source file, which is neither a declaration nor an export:
      they go through its statements\<close>
  "scanFileDirectives sf prog =
     (let validDirectives = getValidDirectives (checker prog) (fileNames prog);
          topLevel = getTopLevelDirectives sf prog;
          moduleDirective = (case topLevel of [] \<Rightarrow> None | d # _ \<Rightarrow> Some d);
          declarationDirectives =
            fold (collectDeclarationDirectives validDirectives moduleDirective) (statements sf) [];
          exports =
            fold (visit validDirectives moduleDirective declarationDirectives) (statements sf) []
      in \<lparr>moduleDirectives = topLevel, exportDirectives = exports\<rparr>)"

section \<open>The two caches (cache.ts)\<close>

definition CACHE_SCHEMA_VERSION :: nat where
  "CACHE_SCHEMA_VERSION = 2"

record cachedDirectiveData =
  cachedModuleDirectives :: "string list"
  cachedExportDirectives :: directiveMap
  cachedVersion :: versionToken
  schemaVersion :: nat

record caches =
  fileCache :: "nat \<rightharpoonup> cachedDirectiveData"
    \<comment> \<open>the \<open>WeakMap\<close> from source file objects to their data\<close>
  exportMap :: directiveMap
    \<comment> \<open>the global map from \<open>normalizedFilePath::exportName\<close> to the directive\<close>

definition getCachedDirectives :: "caches \<Rightarrow> sourceFile \<Rightarrow> scanResult option" where
  "getCachedDirectives c sf =
     (case fileCache c (objectId sf) of
        None \<Rightarrow> None
      | Some cached \<Rightarrow>
          if schemaVersion cached \<noteq> CACHE_SCHEMA_VERSION then None
          else if cachedVersion cached \<noteq> version sf then None
          else Some \<lparr>moduleDirectives = cachedModuleDirectives cached,
                      exportDirectives = cachedExportDirectives cached\<rparr>)"

definition setCachedDirectives :: "sourceFile \<Rightarrow> string list \<Rightarrow> directiveMap \<Rightarrow> caches \<Rightarrow> caches" where
  "setCachedDirectives sf moduleDirs exportDirs c =
     c\<lparr>fileCache := (fileCache c)(objectId sf \<mapsto>
         \<lparr>cachedModuleDirectives = moduleDirs,
          cachedExportDirectives = exportDirs,
          cachedVersion = version sf,
          schemaVersion = CACHE_SCHEMA_VERSION\<rparr>)\<rparr>"

definition normalizeFilePath :: "string \<Rightarrow> string" where
  \<comment> \<open>\<open>fileName.replace(/\\/g, "/")\<close>\<close>
  "normalizeFilePath name = map (\<lambda>c. if c = CHR 0x5C then CHR ''/'' else c) name"

definition exportKey :: "string \<Rightarrow> string \<Rightarrow> string" where
  "exportKey name exportName = normalizeFilePath name @ ''::'' @ exportName"

definition setExportDirective :: "string \<Rightarrow> string \<Rightarrow> string \<Rightarrow> caches \<Rightarrow> caches" where
  "setExportDirective name exportName directive c =
     c\<lparr>exportMap := AList.update (exportKey name exportName) directive (exportMap c)\<rparr>"

definition getExportDirective :: "caches \<Rightarrow> string \<Rightarrow> string \<Rightarrow> string option" where
  \<comment> \<open>\<open>exportMap.get(key) || null\<close>\<close>
  "getExportDirective c name exportName =
     (let found = map_of (exportMap c) (exportKey name exportName)
      in if truthy found then found else None)"

definition clearAllCaches :: "caches \<Rightarrow> caches" where
  "clearAllCaches c = c\<lparr>exportMap := []\<rparr>"

definition clearCachedDirectives :: "sourceFile \<Rightarrow> caches \<Rightarrow> caches" where
  "clearCachedDirectives sf c = c\<lparr>fileCache := (fileCache c)(objectId sf := None)\<rparr>"

definition clearExportDirectives :: "string \<Rightarrow> caches \<Rightarrow> caches" where
  "clearExportDirectives name c =
     c\<lparr>exportMap :=
         filter (\<lambda>entry. \<not> startsWith (fst entry) (normalizeFilePath name @ ''::'')) (exportMap c)\<rparr>"

section \<open>Scanning into the caches (index.ts)\<close>

record pluginState =
  scannedFiles :: "string list"
    \<comment> \<open>the set of keys \<open>fileName::version\<close> of the files scanned so far\<close>
  stores :: caches

fun versionText :: "versionToken \<Rightarrow> string" where
  \<comment> \<open>the version inside a template string\<close>
  "versionText (VersionString s) = s"
| "versionText NoVersion = ''undefined''"

definition ensureFileScanned :: "program option \<Rightarrow> string \<Rightarrow> pluginState \<Rightarrow> pluginState" where
  "ensureFileScanned languageService name st =
     (case languageService of
        None \<Rightarrow> st
      | Some prog \<Rightarrow>
          (case getSourceFile prog name of
             None \<Rightarrow> st
           | Some sf \<Rightarrow>
               (let cacheKey = name @ ''::'' @ versionText (version sf)
                in if cacheKey \<in> set (scannedFiles st) then st
                   else
                     (let c1 = clearExportDirectives name (stores st);
                          scanned = scanFileDirectives sf prog;
                          c2 = setCachedDirectives sf (moduleDirectives scanned)
                                 (exportDirectives scanned) c1;
                          c3 = fold (\<lambda>(exportName, directive). setExportDirective name exportName directive)
                                 (exportDirectives scanned) c2
                      in \<lparr>scannedFiles = scannedFiles st @ [cacheKey], stores = c3\<rparr>))))"

section \<open>Resolving imports (hover.ts, hints.ts)\<close>

text \<open>
  \<open>getImportDirective\<close> and \<open>addImportHints\<close> both look an imported name up in the same way,
  once for named and once for default imports: the global export map first and, when it has
  no directive for the name, a scan of the imported file.
\<close>

definition lookupImportedDirective ::
  "program \<Rightarrow> string \<Rightarrow> string \<Rightarrow> caches \<Rightarrow> string option \<times> caches" where
  "lookupImportedDirective prog resolvedModule exportedName c =
     (let directive = getExportDirective c resolvedModule exportedName
      in if \<not> truthy directive then
           (case getSourceFile prog resolvedModule of
              None \<Rightarrow> (directive, c)
            | Some importedSourceFile \<Rightarrow>
                (let scanned = scanFileDirectives importedSourceFile prog;
                     c' = setCachedDirectives importedSourceFile (moduleDirectives scanned)
                            (exportDirectives scanned) c;
                     found = map_of (exportDirectives scanned) exportedName
                 in (if truthy found then found else None, c')))
         else (directive, c))"

record importDirective =
  directiveName :: string
    \<comment> \<open>the field \<open>directive\<close>\<close>
  symbolName :: string
  isModuleLevel :: bool

datatype importSymbol =
    ImportSpecifier "string option" string "string option" string
      \<comment> \<open>\<open>propertyName\<close>, \<open>name\<close>, the text of the module specifier if it is a string
          literal, and the name of the file the declaration is in\<close>
  | ImportClause "string option" "string option" string
      \<comment> \<open>the name of the default import, the module specifier, the file\<close>
  | OtherDeclaration

definition describeImport ::
  "program \<Rightarrow> string \<Rightarrow> string \<Rightarrow> string \<Rightarrow> caches \<Rightarrow> importDirective" where
  \<comment> \<open>the result for a directive that was found: module-level unless the export has an
      entry of its own in the file's export directives\<close>
  "describeImport prog resolvedModule exportedName d c =
     (case getSourceFile prog resolvedModule of
        Some importedSourceFile \<Rightarrow>
          (let scannedDirectives =
                 (case getCachedDirectives c importedSourceFile of
                    Some cached \<Rightarrow> cached
                  | None \<Rightarrow> scanFileDirectives importedSourceFile prog);
               hasInlineDirective = (map_of (exportDirectives scannedDirectives) exportedName \<noteq> None)
           in \<lparr>directiveName = d, symbolName = exportedName, isModuleLevel = \<not> hasInlineDirective\<rparr>)
      | None \<Rightarrow> \<lparr>directiveName = d, symbolName = exportedName, isModuleLevel = False\<rparr>)"

definition importTarget :: "importSymbol \<Rightarrow> (string \<times> string \<times> string) option" where
  \<comment> \<open>module specifier, containing file and exported name of an import that the resolver
      follows\<close>
  "importTarget decl =
     (case decl of
        ImportSpecifier propertyName name (Some importPath) file \<Rightarrow>
          Some (importPath, file, (case propertyName of Some p \<Rightarrow> p | None \<Rightarrow> name))
      | ImportClause (Some name) (Some importPath) file \<Rightarrow> Some (importPath, file, ''default'')
      | _ \<Rightarrow> None)"

fun getImportDirective ::
  "(string \<Rightarrow> string \<Rightarrow> string option) \<Rightarrow> program \<Rightarrow> importSymbol list \<Rightarrow> caches
     \<Rightarrow> importDirective option \<times> caches" where
  \<comment> \<open>the loop over the declarations of the symbol under the cursor;
      \<open>resolveModuleName\<close> is the compiler's module resolution\<close>
  "getImportDirective resolveModuleName prog [] c = (None, c)"
| "getImportDirective resolveModuleName prog (decl # declarations) c =
     (case importTarget decl of
        None \<Rightarrow> getImportDirective resolveModuleName prog declarations c
      | Some (importPath, file, exportedName) \<Rightarrow>
          (case resolveModuleName importPath file of
             None \<Rightarrow> getImportDirective resolveModuleName prog declarations c
           | Some resolvedModule \<Rightarrow>
               (case lookupImportedDirective prog resolvedModule exportedName c of
                  (Some d, c') \<Rightarrow>
                    (Some (describeImport prog resolvedModule exportedName d c'), c')
                | (None, c') \<Rightarrow> getImportDirective resolveModuleName prog declarations c')))"

section \<open>The edit distance (diagnostics.ts)\<close>

text \<open>
  \<open>levenshteinDistance\<close> fills a matrix, an array of rows that grow by one cell at a time.
  A store into an array is modelled where it overwrites a cell or appends one; a store further
  out, which would leave holes, and a read outside an array, which would yield \<open>undefined\<close>,
  are the result \<open>None\<close>. The function is shown below to return a number for all inputs.
\<close>

definition rowStore :: "'a list \<Rightarrow> nat \<Rightarrow> 'a \<Rightarrow> 'a list option" where
  \<comment> \<open>\<open>row[i] = v\<close>\<close>
  "rowStore xs i v =
     (if i < length xs then Some (xs[i := v])
      else if i = length xs then Some (xs @ [v])
      else None)"

definition cellStore :: "nat list list \<Rightarrow> nat \<Rightarrow> nat \<Rightarrow> nat \<Rightarrow> nat list list option" where
  \<comment> \<open>\<open>matrix[i][j] = v\<close>\<close>
  "cellStore m i j v =
     (if i < length m then map_option (\<lambda>row. m[i := row]) (rowStore (m ! i) j v) else None)"

definition cell :: "nat list list \<Rightarrow> nat \<Rightarrow> nat \<Rightarrow> nat option" where
  \<comment> \<open>\<open>matrix[i][j]\<close>\<close>
  "cell m i j = (if i < length m \<and> j < length (m ! i) then Some (m ! i ! j) else None)"

definition forUpTo :: "nat \<Rightarrow> nat \<Rightarrow> (nat \<Rightarrow> 's \<Rightarrow> 's option) \<Rightarrow> 's \<Rightarrow> 's option" where
  \<comment> \<open>\<open>for (let k = lo; k <= hi; k++) body\<close>\<close>
  "forUpTo lo hi body s = fold (\<lambda>k r. Option.bind r (body k)) [lo..<Suc hi] (Some s)"

definition fillCell :: "'a list \<Rightarrow> 'a list \<Rightarrow> nat \<Rightarrow> nat \<Rightarrow> nat list list \<Rightarrow> nat list list option" where
  \<comment> \<open>the body of the inner loop\<close>
  "fillCell a b i j m =
     (if b ! (i - 1) = a ! (j - 1) then
        do { d \<leftarrow> cell m (i - 1) (j - 1); cellStore m i j d }
      else
        do { d \<leftarrow> cell m (i - 1) (j - 1);
             l \<leftarrow> cell m i (j - 1);
             u \<leftarrow> cell m (i - 1) j;
             cellStore m i j (min (d + 1) (min (l + 1) (u + 1))) })"

definition levenshteinDistance :: "'a list \<Rightarrow> 'a list \<Rightarrow> nat option" where
  "levenshteinDistance a b =
     do { m0 \<leftarrow> forUpTo 0 (length b) (\<lambda>i m. rowStore m i [i]) [];
          m1 \<leftarrow> forUpTo 0 (length a) (\<lambda>j m. cellStore m 0 j j) m0;
          m2 \<leftarrow> forUpTo 1 (length b) (\<lambda>i. forUpTo 1 (length a) (fillCell a b i)) m1;
          cell m2 (length b) (length a) }"

section \<open>The suggestion engine (diagnostics.ts)\<close>

definition maxDistance :: "string \<Rightarrow> nat" where
  \<comment> \<open>\<open>Math.max(2, Math.min(3, Math.ceil(input.length * 0.2)))\<close>, in exact arithmetic.
      The product in floating point has the same ceiling below 3: it is at most 1.8 up to
      length 9, exactly 2 at length 10 and at least 2.2 from length 11 on.\<close>
  "maxDistance input = nat (max 2 (min 3 \<lceil>rat_of_nat (length input) * 0.2\<rceil>))"

definition distanceTo :: "string \<Rightarrow> string \<Rightarrow> nat" where
  \<comment> \<open>the number that \<open>levenshteinDistance(input, directive)\<close> returns\<close>
  "distanceTo input directive = the (levenshteinDistance input directive)"

definition findClosestDirectives :: "string \<Rightarrow> string list \<Rightarrow> nat \<Rightarrow> string list" where
  \<comment> \<open>\<open>Array.prototype.sort\<close> is stable, and so is \<^const>\<open>sort_key\<close>\<close>
  "findClosestDirectives input validDirectives maxSuggestions =
     (let distances = map (\<lambda>directive. (directive, distanceTo input directive)) validDirectives;
          sorted = sort_key snd distances;
          closeSuggestions =
            map fst (take maxSuggestions (filter (\<lambda>d. snd d \<le> maxDistance input) sorted))
      in closeSuggestions)"

fun joinWith :: "string \<Rightarrow> string list \<Rightarrow> string" where
  \<comment> \<open>\<open>items.join(separator)\<close>\<close>
  "joinWith separator [] = []"
| "joinWith separator [x] = x"
| "joinWith separator (x # y # ys) = x @ separator @ joinWith separator (y # ys)"

definition formatList :: "string \<Rightarrow> string list \<Rightarrow> string" where
  \<comment> \<open>the common shape of \<open>formatSuggestionList\<close> and \<open>formatDirectiveList\<close>, which differ
      in the conjunction only\<close>
  "formatList conjunction items =
     (case items of
        [] \<Rightarrow> []
      | [a] \<Rightarrow> quoted a
      | [a, b] \<Rightarrow> quoted a @ '' '' @ conjunction @ '' '' @ quoted b
      | _ \<Rightarrow> joinWith '', '' (map quoted (butlast items)) @ '', '' @ conjunction @ '' ''
               @ quoted (last items))"

definition formatSuggestionList :: "string list \<Rightarrow> string" where
  "formatSuggestionList suggestions = formatList ''or'' suggestions"

definition formatDirectiveList :: "string list \<Rightarrow> string" where
  "formatDirectiveList directives = formatList ''and'' directives"

section \<open>The diagnostics pass (diagnostics.ts)\<close>

datatype diagnosticCategory = Warning | Error | Suggestion | Message

record diagnostic =
  diagFile :: string
    \<comment> \<open>the source file, by its name\<close>
  diagStart :: nat
    \<comment> \<open>the field \<open>start\<close>\<close>
  diagLength :: nat
    \<comment> \<open>the field \<open>length\<close>\<close>
  messageText :: string
  category :: diagnosticCategory
  code :: nat

record checkState =
  diags :: "diagnostic list"
    \<comment> \<open>the array \<open>diagnostics\<close>\<close>
  valid :: "string list"
    \<comment> \<open>the array \<open>validDirectives\<close>, which \<open>validDirectives.sort()\<close> sorts in place\<close>

record validation =
  typeCheck :: typeChecker
  programFiles :: "string list"
  checkedFile :: string
  directiveType :: "tsType option"
  allDirectiveVariations :: "string list"

definition getAllDirectiveVariations :: "typeChecker \<Rightarrow> string list \<Rightarrow> string list" where
  \<comment> \<open>the string literals of the union type \<open>Directive\<close>, one level of nesting included\<close>
  "getAllDirectiveVariations tc files =
     (case declaredType tc ''Directive'' files of
        Returns (Some (UnionType members)) \<Rightarrow>
          concat (map (\<lambda>memberType.
            (case memberType of
               StringLiteralType v \<Rightarrow> [v]
             | UnionType nested \<Rightarrow>
                 concat (map (\<lambda>nestedType.
                   (case nestedType of StringLiteralType v \<Rightarrow> [v] | _ \<Rightarrow> [])) nested)
             | _ \<Rightarrow> [])) members)
      | Returns (Some (StringLiteralType v)) \<Rightarrow> [v]
      | _ \<Rightarrow> [])"

definition lookupDirectiveType :: "typeChecker \<Rightarrow> string \<Rightarrow> tsType option" where
  \<comment> \<open>\<open>resolveName("Directive", sourceFile, ...)\<close> and the declared type of the symbol,
      inside \<open>try\<close>\<close>
  "lookupDirectiveType tc name =
     (case resolveName tc ''Directive'' name of
        Returns (Some directiveSymbol) \<Rightarrow>
          (case getDeclaredTypeOfSymbol tc directiveSymbol of Returns t \<Rightarrow> t | Throws \<Rightarrow> None)
      | _ \<Rightarrow> None)"

definition baseDirectiveMatch :: "string \<Rightarrow> string option" where
  \<comment> \<open>\<open>text.match(/^use\s+([^:;]+)/)\<close>, the whole match: \<open>use\<close>, a white space and at least
      one more character that is neither \<open>:\<close> nor \<open>;\<close>, up to the first \<open>:\<close> or \<open>;\<close>\<close>
  "baseDirectiveMatch text =
     (if startsWith text ''use'' then
        (case drop 3 text of
           w # c # rest \<Rightarrow>
             if isWhiteSpace w \<and> c \<noteq> CHR '':'' \<and> c \<noteq> CHR '';''
             then Some (''use'' @ takeWhile (\<lambda>x. x \<noteq> CHR '':'' \<and> x \<noteq> CHR '';'') (w # c # rest))
             else None
         | _ \<Rightarrow> None)
      else None)"

definition isValidDirectiveType :: "string \<Rightarrow> string list \<Rightarrow> bool" where
  "isValidDirectiveType text validDirectives =
     (case baseDirectiveMatch text of
        None \<Rightarrow> False
      | Some m \<Rightarrow> trim m \<in> set validDirectives)"

definition isDirectiveStatement :: "node \<Rightarrow> bool" where
  \<comment> \<open>an expression statement that is a string literal starting with \<open>use \<close>\<close>
  "isDirectiveStatement stmt =
     (case stmt of
        ExpressionStatement (StringLiteral start text) \<Rightarrow> startsWith text ''use ''
      | _ \<Rightarrow> False)"

datatype parent = ParentSourceFile "node list" | ParentBlock "node list" | ParentOther
  \<comment> \<open>the parent of a node: a source file or a block, with its statements, or another node\<close>

definition positionDiagnostic :: "string \<Rightarrow> nat \<Rightarrow> string \<Rightarrow> string \<Rightarrow> diagnostic" where
  "positionDiagnostic name start text scope =
     \<lparr>diagFile = name, diagStart = start + 1, diagLength = length text,
      messageText = ''Directive '' @ doubleQuoted text @ '' must be at the beginning of the '' @ scope,
      category = Error, code = 99002\<rparr>"

definition invalidDiagnostic :: "string \<Rightarrow> nat \<Rightarrow> string \<Rightarrow> string \<Rightarrow> diagnostic" where
  "invalidDiagnostic name start text diagnosticMessage =
     \<lparr>diagFile = name, diagStart = start + 1, diagLength = length text,
      messageText = diagnosticMessage, category = Error, code = 99001\<rparr>"

definition checkDirectivePosition ::
  "string \<Rightarrow> parent \<Rightarrow> nat \<Rightarrow> nat \<Rightarrow> string \<Rightarrow> checkState \<Rightarrow> checkState" where
  \<comment> \<open>the string literal, by its start and text, with the parent of its statement and the
      index of the statement among the parent's statements\<close>
  "checkDirectivePosition name par statementIndex start text st =
     (if \<not> startsWith text ''use '' then st
      else
        (case par of
           ParentSourceFile stmts \<Rightarrow>
             if list_all isDirectiveStatement (take statementIndex stmts) then st
             else st\<lparr>diags := diags st @ [positionDiagnostic name start text ''module body'']\<rparr>
         | ParentBlock stmts \<Rightarrow>
             if list_all isDirectiveStatement (take statementIndex stmts) then st
             else st\<lparr>diags := diags st @ [positionDiagnostic name start text ''function body'']\<rparr>
         | ParentOther \<Rightarrow> st))"

definition closestOrNone :: "string \<Rightarrow> string list \<Rightarrow> string list" where
  \<comment> \<open>\<open>variations.length > 0 ? findClosestDirectives(text, variations) : []\<close>\<close>
  "closestOrNone text variations =
     (if variations \<noteq> [] then findClosestDirectives text variations 3 else [])"

definition notAssignableMessage :: "validation \<Rightarrow> string \<Rightarrow> string list \<Rightarrow> string \<times> string list" where
  \<comment> \<open>the message for a literal that is not assignable to \<open>Directive\<close>, and the array of
      valid directives afterwards\<close>
  "notAssignableMessage env text validDirectives =
     (let hasValidType = isValidDirectiveType text validDirectives
      in if \<not> hasValidType then
           (let baseText = (case baseDirectiveMatch text of Some m \<Rightarrow> trim m | None \<Rightarrow> text);
                suggestions = findClosestDirectives baseText validDirectives 3
            in if suggestions \<noteq> [] then
                 (''Unknown directive '' @ quoted text @ ''. Did you mean ''
                    @ formatSuggestionList suggestions @ ''?'', validDirectives)
               else if validDirectives \<noteq> [] then
                 (let sortedDirectives = sort validDirectives
                  in (''Unknown directive '' @ quoted text @ ''. Available directives are ''
                        @ formatDirectiveList sortedDirectives @ ''.'', sortedDirectives))
               else (''Unknown directive '' @ quoted text @ ''.'', validDirectives))
         else
           (let baseDirective = (case baseDirectiveMatch text of Some m \<Rightarrow> trim m | None \<Rightarrow> []);
                hasOptionsOrProvider = (CHR '':'' \<in> set text \<or> CHR '';'' \<in> set text)
            in if hasOptionsOrProvider \<and> baseDirective \<noteq> [] then
                 (if \<not> directiveSupportsOptions (typeCheck env) (programFiles env) baseDirective then
                    (''Directive '' @ quoted baseDirective
                       @ '' does not support options or providers. Use it as ''
                       @ quoted baseDirective @ ''.'', validDirectives)
                  else
                    (let suggestions = closestOrNone text (allDirectiveVariations env)
                     in if suggestions \<noteq> [] then
                          (''Invalid provider or options for directive '' @ quoted baseDirective
                             @ ''. Did you mean '' @ formatSuggestionList suggestions @ ''?'',
                           validDirectives)
                        else
                          (''Invalid provider or options for directive '' @ quoted baseDirective
                             @ ''.'', validDirectives)))
               else
                 (let suggestions = closestOrNone text (allDirectiveVariations env)
                  in if suggestions \<noteq> [] then
                       (''Type '' @ quoted text @ '' is not assignable to type ''
                          @ quoted ''Directive'' @ ''. Did you mean ''
                          @ formatSuggestionList suggestions @ ''?'', validDirectives)
                     else
                       (''Type '' @ quoted text @ '' is not assignable to type ''
                          @ quoted ''Directive'' @ ''.'', validDirectives))))"

definition unmatchedMessage :: "string \<Rightarrow> string list \<Rightarrow> string \<times> string list" where
  \<comment> \<open>the message of the fallback, for a text that \<open>matchDirective\<close> does not match\<close>
  "unmatchedMessage text validDirectives =
     (let suggestions = findClosestDirectives text validDirectives 3
      in if suggestions \<noteq> [] then
           (''Unknown directive '' @ quoted text @ ''. Did you mean ''
              @ formatSuggestionList suggestions @ ''?'', validDirectives)
         else
           (let sortedDirectives = sort validDirectives
            in (''Unknown directive '' @ quoted text @ ''. Available directives are ''
                  @ formatDirectiveList sortedDirectives @ ''.'', sortedDirectives)))"

definition reportInvalid :: "validation \<Rightarrow> nat \<Rightarrow> string \<Rightarrow> string \<times> string list \<Rightarrow> checkState \<Rightarrow> checkState" where
  \<comment> \<open>\<open>diagnostics.push\<close> of the diagnostic 99001 with the message\<close>
  "reportInvalid env start text result st =
     \<lparr>diags = diags st @ [invalidDiagnostic (checkedFile env) start text (fst result)],
      valid = snd result\<rparr>"

definition checkDirective :: "validation \<Rightarrow> nat \<Rightarrow> string \<Rightarrow> checkState \<Rightarrow> checkState" where
  "checkDirective env start text st =
     (if \<not> startsWith text ''use '' then st
      else
        (case directiveType env of
           Some t \<Rightarrow>
             if isLiteralAssignableTo (typeCheck env) start text t then st
             else reportInvalid env start text (notAssignableMessage env text (valid st)) st
         | None \<Rightarrow>
             if truthy (matchDirective text (valid st)) then st
             else reportInvalid env start text (unmatchedMessage text (valid st)) st))"

type_synonym occurrence = "parent \<times> nat \<times> node"
  \<comment> \<open>a node with its parent and, below a source file or a block, its index among the
      statements\<close>

definition statementOccurrences :: "(node list \<Rightarrow> parent) \<Rightarrow> node list \<Rightarrow> occurrence list" where
  "statementOccurrences par stmts = map (\<lambda>(i, c). (par stmts, i, c)) (enumerate 0 stmts)"

definition childOccurrences :: "node \<Rightarrow> occurrence list" where
  "childOccurrences n =
     (case n of
        Block stmts \<Rightarrow> statementOccurrences ParentBlock stmts
      | _ \<Rightarrow> map (\<lambda>c. (ParentOther, 0, c)) (forEachChild n))"

definition candidateAt :: "validation \<Rightarrow> occurrence \<Rightarrow> checkState \<Rightarrow> checkState" where
  \<comment> \<open>\<open>visit\<close> of \<open>getSemanticDiagnostics\<close> on one node, before it descends\<close>
  "candidateAt env occ st =
     (case occ of
        (ParentOther, i, n) \<Rightarrow> st
      | (par, i, ExpressionStatement (StringLiteral start text)) \<Rightarrow>
          checkDirective env start text
            (checkDirectivePosition (checkedFile env) par i start text st)
      | _ \<Rightarrow> st)"

lemma childOccurrences_forEachChild:
  "occ \<in> set (childOccurrences n) \<Longrightarrow> snd (snd occ) \<in> set (forEachChild n)"
  by (cases n)
    (auto simp: childOccurrences_def statementOccurrences_def in_set_enumerate_eq
      split: option.splits)

lemma size_childOccurrences:
  "occ \<in> set (childOccurrences n) \<Longrightarrow> size (snd (snd occ)) < size n"
  using childOccurrences_forEachChild size_forEachChild by blast

function visitCandidates :: "validation \<Rightarrow> occurrence \<Rightarrow> checkState \<Rightarrow> checkState" where
  \<comment> \<open>\<open>visit\<close> of \<open>getSemanticDiagnostics\<close>\<close>
  "visitCandidates env occ st =
     fold (visitCandidates env) (childOccurrences (snd (snd occ))) (candidateAt env occ st)"
  by pat_completeness auto
termination
  by (relation "measure (\<lambda>(env, occ, st). size (snd (snd occ)))")
    (auto simp: size_childOccurrences)

declare visitCandidates.simps [simp del]

definition validationOf :: "program \<Rightarrow> sourceFile \<Rightarrow> validation" where
  \<comment> \<open>what the checks of \<open>getSemanticDiagnostics\<close> capture: the type checker, the file, the
      type \<open>Directive\<close> and its variations\<close>
  "validationOf prog sf =
     \<lparr>typeCheck = checker prog, programFiles = fileNames prog, checkedFile = fileName sf,
      directiveType = lookupDirectiveType (checker prog) (fileName sf),
      allDirectiveVariations = getAllDirectiveVariations (checker prog) (fileNames prog)\<rparr>"

definition getSemanticDiagnostics ::
  "string \<Rightarrow> program option \<Rightarrow> (string \<Rightarrow> diagnostic list) \<Rightarrow> diagnostic list" where
  \<comment> \<open>the language service is asked for its program only\<close>
  "getSemanticDiagnostics name languageService prior =
     (let originalDiagnostics = prior name
      in case languageService of
           None \<Rightarrow> originalDiagnostics
         | Some prog \<Rightarrow>
             (case getSourceFile prog name of
                None \<Rightarrow> originalDiagnostics
              | Some sf \<Rightarrow>
                  (let validDirectives = getValidDirectives (checker prog) (fileNames prog)
                   in if validDirectives = [] then originalDiagnostics
                      else
                        diags (fold (visitCandidates (validationOf prog sf))
                                 (statementOccurrences ParentSourceFile (statements sf))
                                 \<lparr>diags = originalDiagnostics, valid = validDirectives\<rparr>))))"

section \<open>Notions used in the proofs about the edit distance\<close>

text \<open>
  The edit distance as a recursion on the two lists, single edits (insert, delete or replace
  one element) and sequences of them, and the states of the matrix while it is filled.
\<close>

fun editDistance :: "'a list \<Rightarrow> 'a list \<Rightarrow> nat" where
  "editDistance [] ys = length ys"
| "editDistance (x # xs) [] = Suc (length xs)"
| "editDistance (x # xs) (y # ys) =
     (if x = y then editDistance xs ys
      else min (editDistance xs ys + 1) (min (editDistance (x # xs) ys + 1) (editDistance xs (y # ys) + 1)))"

inductive edit :: "'a list \<Rightarrow> 'a list \<Rightarrow> bool" where
  ins: "edit ys (c # ys)"
| del: "edit (c # ys) ys"
| sub: "edit (c # ys) (d # ys)"
| cong: "edit ys zs \<Longrightarrow> edit (c # ys) (c # zs)"

inductive edits :: "nat \<Rightarrow> 'a list \<Rightarrow> 'a list \<Rightarrow> bool" where
  none: "edits 0 xs xs"
| more: "edits n xs ys \<Longrightarrow> edit ys zs \<Longrightarrow> edits (Suc n) xs zs"

definition prefixDistance :: "'a list \<Rightarrow> 'a list \<Rightarrow> nat \<Rightarrow> nat \<Rightarrow> nat" where
  "prefixDistance a b i j = editDistance (rev (take i b)) (rev (take j a))"

definition partialMatrix :: "'a list \<Rightarrow> 'a list \<Rightarrow> nat \<Rightarrow> nat \<Rightarrow> nat list list" where
  "partialMatrix a b i j =
     map (\<lambda>r. if r < i then map (prefixDistance a b r) [0..<Suc (length a)]
               else if r = i then map (prefixDistance a b r) [0..<j]
               else [r])
       [0..<Suc (length b)]"

definition firstRow :: "nat \<Rightarrow> nat \<Rightarrow> nat list list" where
  "firstRow n j = [0..<max 1 j] # map (\<lambda>i. [i]) [1..<Suc n]"

section \<open>Notions used in the statements about the diagnostics pass\<close>

function occurrencesOf :: "occurrence \<Rightarrow> occurrence list" where
  \<comment> \<open>a node and everything below it, in the order of the traversal\<close>
  "occurrencesOf occ = occ # concat (map occurrencesOf (childOccurrences (snd (snd occ))))"
  by pat_completeness auto
termination
  by (relation "measure (\<lambda>occ. size (snd (snd occ)))") (auto simp: size_childOccurrences)

declare occurrencesOf.simps [simp del]

definition fileOccurrences :: "sourceFile \<Rightarrow> occurrence list" where
  \<comment> \<open>the nodes of a source file, in the order of the traversal\<close>
  "fileOccurrences sf =
     concat (map occurrencesOf (statementOccurrences ParentSourceFile (statements sf)))"

definition concerns :: "diagnostic \<Rightarrow> occurrence \<Rightarrow> bool" where
  \<comment> \<open>the diagnostic is about this node, a string literal statement starting with \<open>use \<close>:
      its span is the text of the literal\<close>
  "concerns d occ =
     (case occ of
        (par, i, ExpressionStatement (StringLiteral start text)) \<Rightarrow>
          startsWith text ''use '' \<and> diagStart d = start + 1 \<and> diagLength d = length text
      | _ \<Rightarrow> False)"

definition earlierNonDirective :: "node list \<Rightarrow> nat \<Rightarrow> bool" where
  \<comment> \<open>some earlier sibling statement is not a directive-like string literal statement\<close>
  "earlierNonDirective stmts i = (\<exists>k<i. \<not> isDirectiveStatement (stmts ! k))"

definition positionViolation :: "string \<Rightarrow> occurrence \<Rightarrow> diagnostic list" where
  \<comment> \<open>the violation of a directive-like statement of a module or a block that follows a
      statement which is not directive-like, tagged with the kind of scope\<close>
  "positionViolation name occ =
     (case occ of
        (ParentSourceFile stmts, i, ExpressionStatement (StringLiteral start text)) \<Rightarrow>
          if startsWith text ''use '' \<and> earlierNonDirective stmts i
          then [positionDiagnostic name start text ''module body''] else []
      | (ParentBlock stmts, i, ExpressionStatement (StringLiteral start text)) \<Rightarrow>
          if startsWith text ''use '' \<and> earlierNonDirective stmts i
          then [positionDiagnostic name start text ''function body''] else []
      | _ \<Rightarrow> [])"

definition wellIndexed :: "occurrence \<Rightarrow> bool" where
  \<comment> \<open>below a source file or a block, the index is the node's place among the statements\<close>
  "wellIndexed occ =
     (case occ of
        (ParentSourceFile stmts, i, n) \<Rightarrow> i < length stmts \<and> stmts ! i = n
      | (ParentBlock stmts, i, n) \<Rightarrow> i < length stmts \<and> stmts ! i = n
      | (ParentOther, i, n) \<Rightarrow> True)"

section \<open>Notions used in the statements about the scanner\<close>

function nodesOf :: "node \<Rightarrow> node list" where
  \<comment> \<open>a node and everything below it, in the order of the traversal\<close>
  "nodesOf n = n # concat (map nodesOf (forEachChild n))"
  by pat_completeness auto
termination
  by (relation "measure size") (auto simp: size_forEachChild)

declare nodesOf.simps [simp del]

definition fileNodes :: "sourceFile \<Rightarrow> node list" where
  "fileNodes sf = concat (map nodesOf (statements sf))"

fun declaredVariable :: "string list \<Rightarrow> node \<Rightarrow> (string \<times> string option) list" where
  "declaredVariable validDirectives (VariableDeclaration (Some name) others (Some initializer)) =
     [(name, getDirectiveOfNode initializer validDirectives)]"
| "declaredVariable validDirectives decl = []"

fun declaredAt :: "string list \<Rightarrow> node \<Rightarrow> (string \<times> string option) list" where
  \<comment> \<open>the declarations that the first pass finds at a node: named function declarations
      and variables with an initializer, each with its name and its inline directive\<close>
  "declaredAt validDirectives (FunctionLike FunctionDeclaration modifiers (Some name) others body) =
     [(name, getDirectiveOfNode
               (FunctionLike FunctionDeclaration modifiers (Some name) others body) validDirectives)]"
| "declaredAt validDirectives (VariableStatement modifiers declarations) =
     concat (map (declaredVariable validDirectives) declarations)"
| "declaredAt validDirectives n = []"

definition declaredIn :: "string list \<Rightarrow> sourceFile \<Rightarrow> (string \<times> string option) list" where
  \<comment> \<open>the declarations of a file, nested ones included, in the order of the traversal\<close>
  "declaredIn validDirectives sf = concat (map (declaredAt validDirectives) (fileNodes sf))"




definition specifierLocalName :: "string option \<times> string \<Rightarrow> string" where
  \<comment> \<open>the local name of an export specifier\<close>
  "specifierLocalName element = (case fst element of Some propertyName \<Rightarrow> propertyName | None \<Rightarrow> snd element)"










section \<open>Notions used in the proofs about the scanner\<close>

definition recordEntry :: "string option \<Rightarrow> string \<times> string option \<Rightarrow> directiveMap \<Rightarrow> directiveMap" where
  \<comment> \<open>the first pass on one declaration, given by its name and its inline directive\<close>
  "recordEntry moduleDirective entry declarationDirectives =
     (if truthy (snd entry) then AList.update (fst entry) (the (snd entry)) declarationDirectives
      else if truthy moduleDirective then
        AList.update (fst entry) (the moduleDirective) declarationDirectives
      else declarationDirectives)"

definition setIfTruthy :: "string \<times> string option \<Rightarrow> directiveMap \<Rightarrow> directiveMap" where
  \<comment> \<open>\<open>if (value) map.set(key, value)\<close>\<close>
  "setIfTruthy entry m = (if truthy (snd entry) then AList.update (fst entry) (the (snd entry)) m else m)"

fun exportedVariableWrite :: "directiveMap \<Rightarrow> node \<Rightarrow> (string \<times> string option) list" where
  "exportedVariableWrite declarationDirectives (VariableDeclaration (Some name) others initializer) =
     [(name, map_of declarationDirectives name)]"
| "exportedVariableWrite declarationDirectives decl = []"

fun exportWritesAt ::
  "string list \<Rightarrow> string option \<Rightarrow> directiveMap \<Rightarrow> node \<Rightarrow> (string \<times> string option) list" where
  \<comment> \<open>what the second pass tries to store at a node: the exported names with the values
      looked up for them\<close>
  "exportWritesAt validDirectives moduleDirective declarationDirectives
       (FunctionLike FunctionDeclaration modifiers (Some name) others body) =
     (if ExportKeyword \<in> set modifiers
      then (name, map_of declarationDirectives name)
           # (if DefaultKeyword \<in> set modifiers
              then [(''default'', map_of declarationDirectives name)] else [])
      else [])"
| "exportWritesAt validDirectives moduleDirective declarationDirectives
       (VariableStatement modifiers declarations) =
     (if ExportKeyword \<in> set modifiers
      then concat (map (exportedVariableWrite declarationDirectives) declarations) else [])"
| "exportWritesAt validDirectives moduleDirective declarationDirectives
       (ExportAssignment isExportEquals expression) =
     (if \<not> isExportEquals then
        [(''default'',
          if truthy (getDirectiveOfNode expression validDirectives)
          then getDirectiveOfNode expression validDirectives
          else if truthy moduleDirective then moduleDirective else None)]
      else [])"
| "exportWritesAt validDirectives moduleDirective declarationDirectives
       (ExportDeclaration (Some (NamedExports elements)) moduleSpecifier) =
     map (\<lambda>element. (snd element, map_of declarationDirectives (specifierLocalName element)))
       elements"
| "exportWritesAt validDirectives moduleDirective declarationDirectives n = []"

section \<open>Example inputs\<close>

definition exampleFile :: "node list \<Rightarrow> sourceFile" where
  \<comment> \<open>the file \<open>test.ts\<close> with the given statements\<close>
  "exampleFile stmts =
     \<lparr>objectId = 1, fileName = ''test.ts'', version = VersionString ''1'',
      isDeclarationFile = False, statements = stmts\<rparr>"

definition exampleProgram :: "node list \<Rightarrow> program" where
  \<comment> \<open>the program of \<open>test.ts\<close> alone, with the built-in registry\<close>
  "exampleProgram stmts = \<lparr>checker = builtinChecker, sourceFiles = [exampleFile stmts]\<rparr>"

definition emptyCaches :: caches where
  "emptyCaches = \<lparr>fileCache = Map.empty, exportMap = []\<rparr>"

definition throwingChecker :: typeChecker where
  \<comment> \<open>a type checker whose \<open>resolveName\<close> throws\<close>
  "throwingChecker =
     \<lparr>resolveName = (\<lambda>name file. Throws),
      getDeclaredTypeOfSymbol = (\<lambda>symbol. Throws),
      isLiteralAssignableTo = (\<lambda>start text t. False)\<rparr>"

definition exampleDiagnostic :: diagnostic where
  \<comment> \<open>a diagnostic of the compiler's own\<close>
  "exampleDiagnostic =
     \<lparr>diagFile = ''test.ts'', diagStart = 0, diagLength = 1,
      messageText = ''Cannot find name.'', category = Error, code = 2304\<rparr>"

definition actionsFile :: sourceFile where
  \<comment> \<open>the file \<open>a.ts\<close>: \<open>export function f() { "use client"; }\<close>\<close>
  "actionsFile =
     \<lparr>objectId = 2, fileName = ''a.ts'', version = VersionString ''1'',
      isDeclarationFile = False,
      statements =
        [FunctionLike FunctionDeclaration [ExportKeyword] (Some ''f'') []
           (Some (Block [ExpressionStatement (StringLiteral 22 ''use client'')]))]\<rparr>"

definition importingProgram :: program where
  \<comment> \<open>\<open>test.ts\<close>, which imports from \<open>./a\<close>, and \<open>a.ts\<close>\<close>
  "importingProgram =
     \<lparr>checker = builtinChecker, sourceFiles = [exampleFile [OtherNode []], actionsFile]\<rparr>"

definition exampleResolution :: "string \<Rightarrow> string \<Rightarrow> string option" where
  \<comment> \<open>a module resolution that knows \<open>./a\<close>\<close>
  "exampleResolution importPath containingFile =
     (if importPath = ''./a'' then Some ''a.ts'' else None)"

definition misplacedModule :: "node list" where
  \<comment> \<open>the module \<open>const x = 1;\n"use server";\<close>\<close>
  "misplacedModule =
     [VariableStatement [] [VariableDeclaration (Some ''x'') [] (Some (OtherNode []))],
      ExpressionStatement (StringLiteral 13 ''use server'')]"

definition misplacedBody :: "node list" where
  \<comment> \<open>the statements of the body of
      \<open>export function action() {\n  const x = 1;\n  "use server";\n  return x;\n}\<close>\<close>
  "misplacedBody =
     [VariableStatement [] [VariableDeclaration (Some ''x'') [] (Some (OtherNode []))],
      ExpressionStatement (StringLiteral 44 ''use server''),
      OtherNode [OtherNode []]]"

definition misplacedFunction :: "node list" where
  "misplacedFunction =
     [FunctionLike FunctionDeclaration [ExportKeyword] (Some ''action'') [] (Some (Block misplacedBody))]"

definition leadingModule :: "node list" where
  \<comment> \<open>the module \<open>"use client";\n"use no memo";\nconst x = 1;\<close>\<close>
  "leadingModule =
     [ExpressionStatement (StringLiteral 0 ''use client''),
      ExpressionStatement (StringLiteral 14 ''use no memo''),
      VariableStatement [] [VariableDeclaration (Some ''x'') [] (Some (OtherNode []))]]"

definition plainChecker :: typeChecker where
  \<comment> \<open>the type checker of a project in which no file declares \<open>DirectiveRegistry\<close> or
      \<open>Directive\<close>: no name resolves\<close>
  "plainChecker =
     \<lparr>resolveName = (\<lambda>name file. Returns None),
      getDeclaredTypeOfSymbol = (\<lambda>symbol. Returns None),
      isLiteralAssignableTo = (\<lambda>start text t. False)\<rparr>"

definition plainProgram :: "node list \<Rightarrow> program" where
  \<comment> \<open>the program of \<open>test.ts\<close> alone, without the registry\<close>
  "plainProgram stmts = \<lparr>checker = plainChecker, sourceFiles = [exampleFile stmts]\<rparr>"

definition noDiagnostics :: "string \<Rightarrow> diagnostic list" where
  \<comment> \<open>a language service that has no diagnostics of its own\<close>
  "noDiagnostics name = []"

definition greetingModule :: "node list" where
  \<comment> \<open>the module \<open>"hello world";\n"use server";\<close>\<close>
  "greetingModule =
     [ExpressionStatement (StringLiteral 0 ''hello world''),
      ExpressionStatement (StringLiteral 15 ''use server'')]"


definition shadowingModule :: "node list" where
  \<comment> \<open>the module
      \<open>"use server";\nexport function f() {}\nfunction helper() { function f() { "use client"; } }\<close>\<close>
  "shadowingModule =
     [ExpressionStatement (StringLiteral 0 ''use server''),
      FunctionLike FunctionDeclaration [ExportKeyword] (Some ''f'') [] (Some (Block [])),
      FunctionLike FunctionDeclaration [] (Some ''helper'') []
        (Some (Block
          [FunctionLike FunctionDeclaration [] (Some ''f'') []
             (Some (Block [ExpressionStatement (StringLiteral 76 ''use client'')]))]))]"



section \<open>Properties of the matcher\<close>

lemma startsWith_append: "startsWith (p @ r) p"
  by (simp add: startsWith_def)

lemma startsWith_refl: "startsWith t t"
  by (simp add: startsWith_def)

lemma matchPrefixed_sound:
  "matchPrefixed text ds = Some d \<Longrightarrow> d \<in> set ds \<and> startsWith text d"
  by (induction ds) (auto simp: Let_def split: if_splits)

lemma matchPrefixed_finds:
  assumes "d \<in> set ds" and "startsWith text d"
    and "drop (length d) text = [] \<or> optionsPattern (drop (length d) text)"
  shows "\<exists>d'. matchPrefixed text ds = Some d'"
  using assms by (induction ds) (auto simp: Let_def)

lemma optionsPattern_x1: "optionsPattern ''; x=1''"
  by (simp add: isLineTerminator_def isWhiteSpace_def)

lemma builtin_vocabulary:
  "getValidDirectives builtinChecker [''test.ts''] =
     [''use strict'', ''use server'', ''use client'', ''use no memo'']"
  by (simp add: getValidDirectives_def declaredType_def builtinChecker_def builtinRegistry_def
      getPropertiesOfType_def startsWith_def)

text \<open>
  C9. A name of the vocabulary matches itself: \<open>matchDirective(d, vocabulary) == d\<close>.
\<close>

theorem matchDirective_self:
  "d \<in> set vocabulary \<Longrightarrow> matchDirective d vocabulary = Some d"
  by (simp add: matchDirective_def)

theorem matchDirective_self_witness:
  "''use client'' \<in> set [''use server'', ''use client'']
   \<and> matchDirective ''use client'' [''use server'', ''use client''] = Some ''use client''"
  using matchDirective_self [of "''use client''" "[''use server'', ''use client'']"] by simp

text \<open>
  C1, as stated: a directive \<open>d\<close> that does not accept options followed by \<open>; x=1\<close> matches
  nothing. The matcher receives the names only and never looks at the types of the registry:
  \<open>use server\<close>, of type \<open>never\<close> in the built-in registry, followed by \<open>; x=1\<close> matches
  \<open>use server\<close>.
\<close>

theorem matchDirective_options_counterexample:
  "\<not> acceptsOptions \<lparr>propName = ''use server'', propIsNever = True\<rparr>
   \<and> \<not> directiveSupportsOptions builtinChecker [''test.ts''] ''use server''
   \<and> ''use server'' \<in> set (getValidDirectives builtinChecker [''test.ts''])
   \<and> matchDirective (''use server'' @ ''; x=1'') (getValidDirectives builtinChecker [''test.ts''])
       = Some ''use server''"
  unfolding builtin_vocabulary
  by (simp add: acceptsOptions_def directiveSupportsOptions_def declaredType_def
      builtinChecker_def builtinRegistry_def getPropertiesOfType_def matchDirective_def
      startsWith_def isLineTerminator_def isWhiteSpace_def)

text \<open>
  C1, amended: for every name \<open>d\<close> of the vocabulary, whether or not it accepts options,
  \<open>d\<close> followed by \<open>; x=1\<close> matches a name of the vocabulary that the text starts with,
  and it matches \<open>d\<close> itself when no other name of the vocabulary starts the text.
\<close>

theorem matchDirective_options:
  assumes "d \<in> set vocabulary"
  shows "\<exists>d'. matchDirective (d @ ''; x=1'') vocabulary = Some d'
           \<and> d' \<in> set vocabulary \<and> startsWith (d @ ''; x=1'') d'
           \<and> ((\<forall>e \<in> set vocabulary. startsWith (d @ ''; x=1'') e \<longrightarrow> e = d) \<longrightarrow> d' = d)"
proof (cases "d @ ''; x=1'' \<in> set vocabulary")
  case True
  have "d @ ''; x=1'' \<noteq> d"
    by simp
  with True have "\<not> (\<forall>e \<in> set vocabulary. startsWith (d @ ''; x=1'') e \<longrightarrow> e = d)"
    using startsWith_refl by blast
  with True show ?thesis
    by (simp add: matchDirective_def startsWith_refl)
next
  case False
  have "drop (length d) (d @ ''; x=1'') = ''; x=1''"
    by simp
  then have "\<exists>d'. matchPrefixed (d @ ''; x=1'') vocabulary = Some d'"
    using matchPrefixed_finds [OF assms startsWith_append, of "''; x=1''"] optionsPattern_x1
    by simp
  then obtain d' where d': "matchPrefixed (d @ ''; x=1'') vocabulary = Some d'"
    by blast
  from matchPrefixed_sound [OF d'] False d' show ?thesis
    by (auto simp: matchDirective_def)
qed

theorem matchDirective_options_witness:
  "''use server'' \<in> set [''use client'', ''use server'']
   \<and> matchDirective (''use server'' @ ''; x=1'') [''use client'', ''use server'']
       = Some ''use server''"
  using matchDirective_options [of "''use server''" "[''use client'', ''use server'']"]
  by (auto simp: startsWith_def)

section \<open>Properties of the edit distance\<close>

lemma editDistance_Nil2 [simp]: "editDistance xs [] = length xs"
  by (cases xs) simp_all

lemma editDistance_sym: "editDistance xs ys = editDistance ys xs"
  by (induction xs ys rule: editDistance.induct) (simp_all add: min.commute)


text \<open>one more element on either side changes the distance by at most one\<close>

lemma editDistance_Cons_bounds:
  "editDistance (x # xs) ys \<le> Suc (editDistance xs ys)
   \<and> editDistance xs ys \<le> Suc (editDistance xs (y # ys))"
proof (induction "length xs + length ys" arbitrary: xs ys x y rule: less_induct)
  case less
  have first: "editDistance (x # xs) ys \<le> Suc (editDistance xs ys)" for x
  proof (cases ys)
    case Nil
    then show ?thesis by simp
  next
    case (Cons y' ys')
    have "editDistance xs ys' \<le> Suc (editDistance xs (y' # ys'))"
      using less [of xs ys'] Cons by simp
    then show ?thesis
      using Cons by (auto simp: min_def)
  qed
  have second: "editDistance xs ys \<le> Suc (editDistance xs (y # ys))"
  proof (cases xs)
    case Nil
    then show ?thesis by simp
  next
    case (Cons x' xs')
    have a: "editDistance (x' # xs') ys \<le> Suc (editDistance xs' ys)"
      using less [of xs' ys] Cons by simp
    have b: "editDistance xs' ys \<le> Suc (editDistance xs' (y # ys))"
      using less [of xs' ys] Cons by simp
    show ?thesis
      using Cons a b by (auto simp: min_def)
  qed
  from first second show ?case by blast
qed

lemma editDistance_Cons1: "editDistance (x # xs) ys \<le> Suc (editDistance xs ys)"
  by (rule editDistance_Cons_bounds [of x xs ys undefined, THEN conjunct1])

lemma editDistance_Cons2: "editDistance xs (y # ys) \<le> Suc (editDistance xs ys)"
  using editDistance_Cons1 [of y ys xs] by (simp add: editDistance_sym)

lemma editDistance_drop2: "editDistance xs ys \<le> Suc (editDistance xs (y # ys))"
  by (rule editDistance_Cons_bounds [of undefined xs ys y, THEN conjunct2])

lemma editDistance_drop1: "editDistance xs ys \<le> Suc (editDistance (x # xs) ys)"
  using editDistance_drop2 [of ys xs x] by (simp add: editDistance_sym)

lemma editDistance_Cons_Cons_le:
  "editDistance (x # xs) (y # ys) \<le> editDistance xs ys + (if x = y then 0 else 1)"
  by simp

lemma editDistance_Cons_Cons_cases:
  "editDistance (x # xs) (y # ys) = editDistance xs ys + (if x = y then 0 else 1)
   \<or> editDistance (x # xs) (y # ys) = Suc (editDistance (x # xs) ys)
   \<or> editDistance (x # xs) (y # ys) = Suc (editDistance xs (y # ys))"
  by (simp add: min_def)

lemma edits_first: "edits n ys zs \<Longrightarrow> edit xs ys \<Longrightarrow> edits (Suc n) xs zs"
proof (induction n ys zs rule: edits.induct)
  case (none ys)
  then show ?case using edits.none edits.more by blast
next
  case (more n ys zs ws)
  then show ?case using edits.more by blast
qed

lemma edits_cong: "edits n xs ys \<Longrightarrow> edits n (c # xs) (c # ys)"
  by (induction rule: edits.induct) (auto intro: edits.intros edit.cong)

lemma edits_insert_all: "edits (length ys) [] ys"
proof (induction ys)
  case Nil
  show ?case by (simp add: edits.none)
next
  case (Cons y ys)
  then show ?case using edits.more edit.ins by fastforce
qed

lemma edits_delete_all: "edits (length xs) xs []"
proof (induction xs)
  case Nil
  show ?case by (simp add: edits.none)
next
  case (Cons x xs)
  then show ?case using edits_first edit.del by fastforce
qed

lemma edits_editDistance: "edits (editDistance xs ys) xs ys"
proof (induction xs ys rule: editDistance.induct)
  case (1 ys)
  show ?case by (simp add: edits_insert_all)
next
  case (2 x xs)
  show ?case using edits_delete_all [of "x # xs"] by simp
next
  case (3 x xs y ys)
  show ?case
  proof (cases "x = y")
    case True
    with 3 show ?thesis by (simp add: edits_cong)
  next
    case False
    have a: "edits (Suc (editDistance xs ys)) (x # xs) (y # ys)"
      using 3(2) [OF False] edits_cong edits_first edit.sub by fast
    have b: "edits (Suc (editDistance (x # xs) ys)) (x # xs) (y # ys)"
      using 3(3) [OF False] edits.more edit.ins by fast
    have c: "edits (Suc (editDistance xs (y # ys))) (x # xs) (y # ys)"
      using 3(4) [OF False] edits_first edit.del by fast
    from False a b c show ?thesis
      by (simp add: min_def)
  qed
qed

lemma editDistance_sub: "editDistance xs (d # t) \<le> Suc (editDistance xs (c # t))"
proof (induction xs)
  case Nil
  show ?case by simp
next
  case (Cons x xs)
  have 1: "editDistance (x # xs) (d # t) \<le> Suc (editDistance xs t)"
    using editDistance_Cons_Cons_le [of x xs d t] by (simp split: if_splits)
  have 2: "editDistance (x # xs) (d # t) \<le> Suc (Suc (editDistance xs (c # t)))"
    using Cons editDistance_Cons1 [of x xs "d # t"] by simp
  have 3: "editDistance (x # xs) (d # t) \<le> Suc (editDistance (x # xs) t)"
    by (rule editDistance_Cons2)
  from editDistance_Cons_Cons_cases [of x xs c t] 1 2 3 show ?case
    by (auto split: if_splits)
qed

lemma editDistance_edit:
  "edit ys zs \<Longrightarrow> editDistance xs zs \<le> Suc (editDistance xs ys)"
proof (induction ys zs arbitrary: xs rule: edit.induct)
  case (ins ys c)
  show ?case by (rule editDistance_Cons2)
next
  case (del c ys)
  show ?case by (rule editDistance_drop2)
next
  case (sub c ys d)
  show ?case by (rule editDistance_sub)
next
  case (cong ys zs c)
  show ?case
  proof (induction xs)
    case Nil
    show ?case using cong.IH [of "[]"] by simp
  next
    case (Cons x xs)
    have 1: "editDistance (x # xs) (c # zs) \<le> Suc (editDistance xs ys) + (if x = c then 0 else 1)"
      using editDistance_Cons_Cons_le [of x xs c zs] cong.IH [of xs] by (simp split: if_splits)
    have 2: "editDistance (x # xs) (c # zs) \<le> Suc (Suc (editDistance xs (c # ys)))"
      using Cons editDistance_Cons1 [of x xs "c # zs"] by simp
    have 3: "editDistance (x # xs) (c # zs) \<le> Suc (Suc (editDistance (x # xs) ys))"
      using cong.IH [of "x # xs"] editDistance_Cons2 [of "x # xs" c zs] by simp
    from editDistance_Cons_Cons_cases [of x xs c ys] 1 2 3 show ?case
      by (auto split: if_splits)
  qed
qed

lemma editDistance_edits:
  "edits n ys zs \<Longrightarrow> editDistance xs zs \<le> editDistance xs ys + n"
proof (induction n ys zs rule: edits.induct)
  case (none ys)
  show ?case by simp
next
  case (more n ys zs ws)
  from editDistance_edit [OF more.hyps(2), of xs] more.IH show ?case by simp
qed

lemma editDistance_triangle:
  "editDistance xs zs \<le> editDistance xs ys + editDistance ys zs"
  by (rule editDistance_edits [OF edits_editDistance])


lemma forUpTo_invariant:
  assumes "lo \<le> Suc hi"
    and "\<And>k. lo \<le> k \<Longrightarrow> k \<le> hi \<Longrightarrow> body k (I k) = Some (I (Suc k))"
  shows "forUpTo lo hi body (I lo) = Some (I (Suc hi))"
proof -
  have "lo \<le> n \<Longrightarrow> n \<le> Suc hi \<Longrightarrow>
        fold (\<lambda>k r. Option.bind r (body k)) [lo..<n] (Some (I lo)) = Some (I n)" for n
  proof (induction n)
    case 0
    then show ?case by simp
  next
    case (Suc n)
    show ?case
    proof (cases "lo = Suc n")
      case True
      then show ?thesis by simp
    next
      case False
      with Suc.prems have "lo \<le> n" "n \<le> hi" by simp_all
      with Suc.IH assms(2) [of n] show ?thesis by simp
    qed
  qed
  from this [of "Suc hi"] assms(1) show ?thesis
    by (simp add: forUpTo_def)
qed

lemma upt_0_1: "[0..<Suc 0] = [0]"
  by simp

lemma prefixDistance_0_left: "j \<le> length a \<Longrightarrow> prefixDistance a b 0 j = j"
  by (simp add: prefixDistance_def)

lemma prefixDistance_0_right: "i \<le> length b \<Longrightarrow> prefixDistance a b i 0 = i"
  by (simp add: prefixDistance_def)

lemma prefixDistance_Suc:
  assumes "i < length b" and "j < length a"
  shows "prefixDistance a b (Suc i) (Suc j) =
           (if b ! i = a ! j then prefixDistance a b i j
            else min (prefixDistance a b i j + 1)
                   (min (prefixDistance a b (Suc i) j + 1) (prefixDistance a b i (Suc j) + 1)))"
  using assms by (simp add: prefixDistance_def take_Suc_conv_app_nth)

lemma length_partialMatrix [simp]: "length (partialMatrix a b i j) = Suc (length b)"
  by (simp add: partialMatrix_def)

lemma nth_partialMatrix:
  "r \<le> length b \<Longrightarrow>
   partialMatrix a b i j ! r =
     (if r < i then map (prefixDistance a b r) [0..<Suc (length a)]
      else if r = i then map (prefixDistance a b r) [0..<j]
      else [r])"
  unfolding partialMatrix_def by (subst nth_map) (simp_all del: upt_Suc)

lemma cell_above:
  "r < i \<Longrightarrow> r \<le> length b \<Longrightarrow> c \<le> length a \<Longrightarrow>
   cell (partialMatrix a b i j) r c = Some (prefixDistance a b r c)"
  by (simp add: cell_def nth_partialMatrix del: upt_Suc)

lemma cell_current:
  "i \<le> length b \<Longrightarrow> c < j \<Longrightarrow>
   cell (partialMatrix a b i j) i c = Some (prefixDistance a b i c)"
  by (simp add: cell_def nth_partialMatrix del: upt_Suc)

lemma cellStore_current:
  assumes "i \<le> length b"
  shows "cellStore (partialMatrix a b i j) i j (prefixDistance a b i j)
           = Some (partialMatrix a b i (Suc j))"
proof -
  have row: "partialMatrix a b i j ! i = map (prefixDistance a b i) [0..<j]"
    using assms by (simp add: nth_partialMatrix)
  have "(partialMatrix a b i j)[i := map (prefixDistance a b i) [0..<j] @ [prefixDistance a b i j]]
          = partialMatrix a b i (Suc j)"
    by (rule nth_equalityI) (auto simp: nth_partialMatrix nth_list_update)
  with row assms show ?thesis
    by (simp add: cellStore_def rowStore_def)
qed

lemma fillCell_partialMatrix:
  assumes "i < length b" "j < length a"
  shows "fillCell a b (Suc i) (Suc j) (partialMatrix a b (Suc i) (Suc j))
           = Some (partialMatrix a b (Suc i) (Suc (Suc j)))"
proof -
  have d: "cell (partialMatrix a b (Suc i) (Suc j)) i j = Some (prefixDistance a b i j)"
    using assms by (simp add: cell_above)
  have l: "cell (partialMatrix a b (Suc i) (Suc j)) (Suc i) j = Some (prefixDistance a b (Suc i) j)"
    using assms by (simp add: cell_current)
  have u: "cell (partialMatrix a b (Suc i) (Suc j)) i (Suc j) = Some (prefixDistance a b i (Suc j))"
    using assms by (simp add: cell_above)
  have s: "cellStore (partialMatrix a b (Suc i) (Suc j)) (Suc i) (Suc j)
             (prefixDistance a b (Suc i) (Suc j))
           = Some (partialMatrix a b (Suc i) (Suc (Suc j)))"
    using assms by (simp add: cellStore_current)
  show ?thesis
  proof (cases "b ! i = a ! j")
    case True
    with s prefixDistance_Suc [OF assms] d show ?thesis
      by (simp add: fillCell_def)
  next
    case False
    with s prefixDistance_Suc [OF assms] d l u show ?thesis
      by (simp add: fillCell_def)
  qed
qed

lemma partialMatrix_next_row:
  "partialMatrix a b i (Suc (length a)) = partialMatrix a b (Suc i) (Suc 0)"
proof (rule nth_equalityI)
  show "length (partialMatrix a b i (Suc (length a))) = length (partialMatrix a b (Suc i) (Suc 0))"
    by simp
next
  fix r
  assume "r < length (partialMatrix a b i (Suc (length a)))"
  then have r: "r \<le> length b" by simp
  have "[0..<Suc 0] = [0]" by simp
  with r show "partialMatrix a b i (Suc (length a)) ! r = partialMatrix a b (Suc i) (Suc 0) ! r"
    by (simp add: nth_partialMatrix prefixDistance_0_right del: upt_Suc)
qed

lemma fill_row:
  assumes "Suc 0 \<le> i" "i \<le> length b"
  shows "forUpTo (Suc 0) (length a) (fillCell a b i) (partialMatrix a b i (Suc 0))
           = Some (partialMatrix a b (Suc i) (Suc 0))"
proof -
  obtain i' where i: "i = Suc i'" "i' < length b"
    using assms by (cases i) simp_all
  have "forUpTo (Suc 0) (length a) (fillCell a b i) (partialMatrix a b i (Suc 0))
          = Some (partialMatrix a b i (Suc (length a)))"
  proof (rule forUpTo_invariant)
    show "Suc 0 \<le> Suc (length a)" by simp
  next
    fix k
    assume "Suc 0 \<le> k" "k \<le> length a"
    then obtain k' where k: "k = Suc k'" "k' < length a"
      by (cases k) simp_all
    show "fillCell a b i k (partialMatrix a b i k) = Some (partialMatrix a b i (Suc k))"
      unfolding i k by (rule fillCell_partialMatrix [OF i(2) k(2)])
  qed
  then show ?thesis
    by (simp add: partialMatrix_next_row)
qed

lemma fill_matrix:
  "forUpTo (Suc 0) (length b) (\<lambda>i. forUpTo (Suc 0) (length a) (fillCell a b i))
     (partialMatrix a b (Suc 0) (Suc 0))
     = Some (partialMatrix a b (Suc (length b)) (Suc 0))"
  by (rule forUpTo_invariant [where I = "\<lambda>i. partialMatrix a b i (Suc 0)"])
    (simp_all add: fill_row)

lemma init_rows:
  "forUpTo 0 n (\<lambda>i m. rowStore m i [i]) [] = Some (map (\<lambda>i. [i]) [0..<Suc n])"
  using forUpTo_invariant [of 0 n "\<lambda>i m. rowStore m i [i]" "\<lambda>k. map (\<lambda>i. [i]) [0..<k]"]
  by (simp add: rowStore_def)

lemma init_first_row:
  "forUpTo 0 k (\<lambda>j m. cellStore m 0 j j) (firstRow n 0) = Some (firstRow n (Suc k))"
proof (rule forUpTo_invariant)
  show "0 \<le> Suc k" by simp
next
  fix j :: nat
  show "cellStore (firstRow n j) 0 j j = Some (firstRow n (Suc j))"
  proof (cases j)
    case 0
    then show ?thesis
      by (simp add: cellStore_def rowStore_def firstRow_def)
  next
    case (Suc j')
    then show ?thesis
      by (simp add: cellStore_def rowStore_def firstRow_def max_def)
  qed
qed

lemma length_firstRow [simp]: "length (firstRow n j) = Suc n"
  by (simp add: firstRow_def del: upt_Suc)

lemma firstRow_0: "firstRow n 0 = map (\<lambda>i. [i]) [0..<Suc n]"
  by (simp add: firstRow_def upt_conv_Cons del: upt_Suc)

lemma firstRow_full:
  "firstRow (length b) (Suc (length a)) = partialMatrix a b (Suc 0) (Suc 0)"
proof (rule nth_equalityI)
  show "length (firstRow (length b) (Suc (length a)))
          = length (partialMatrix a b (Suc 0) (Suc 0))"
    by simp
next
  fix r
  assume "r < length (firstRow (length b) (Suc (length a)))"
  then have r: "r \<le> length b"
    by simp
  show "firstRow (length b) (Suc (length a)) ! r = partialMatrix a b (Suc 0) (Suc 0) ! r"
  proof (cases r)
    case 0
    have "[0..<Suc (length a)] = map (prefixDistance a b 0) [0..<Suc (length a)]"
      by (rule nth_equalityI) (auto simp: prefixDistance_0_left simp del: upt_Suc)
    with 0 show ?thesis
      by (simp add: nth_partialMatrix firstRow_def max_def del: upt_Suc)
  next
    case (Suc r')
    with r show ?thesis
      by (auto simp: nth_partialMatrix firstRow_def prefixDistance_0_right upt_0_1
          simp del: upt_Suc)
  qed
qed

lemma levenshteinDistance_editDistance:
  "levenshteinDistance a b = Some (editDistance (rev b) (rev a))"
proof -
  have "cell (partialMatrix a b (Suc (length b)) (Suc 0)) (length b) (length a)
          = Some (prefixDistance a b (length b) (length a))"
    by (simp add: cell_above)
  then show ?thesis
    by (simp add: levenshteinDistance_def init_rows firstRow_0 [symmetric] init_first_row
        firstRow_full fill_matrix prefixDistance_def del: upt_Suc)
qed


lemma levenshteinDistance_returns: "\<exists>d. levenshteinDistance a b = Some d"
  by (simp add: levenshteinDistance_editDistance)

text \<open>
  C8. \<open>levenshteinDistance\<close> returns a number for all strings; the distance is symmetric and
  satisfies the triangle inequality.
\<close>

theorem levenshteinDistance_metric:
  "levenshteinDistance a b = levenshteinDistance b a
   \<and> (\<exists>ab bc ac. levenshteinDistance a b = Some ab \<and> levenshteinDistance b c = Some bc
         \<and> levenshteinDistance a c = Some ac \<and> ac \<le> ab + bc)"
  using editDistance_triangle [of "rev c" "rev a" "rev b"]
  by (simp add: levenshteinDistance_editDistance editDistance_sym [of "rev b" "rev a"]
      add.commute)
section \<open>Properties of the per-file cache\<close>

text \<open>
  C5. The lookup in the per-file cache returns the stored scan result if and only if the
  entry's schema version is the current one and its version token is the file's current
  token; in every other case, no entry included, it returns a miss; and a store overwrites
  the entry of the file, whatever it was, and no other entry.
\<close>

theorem getCachedDirectives_hit_iff:
  "(getCachedDirectives c sf = Some r \<longleftrightarrow>
      (\<exists>cached. fileCache c (objectId sf) = Some cached
         \<and> schemaVersion cached = CACHE_SCHEMA_VERSION
         \<and> cachedVersion cached = version sf
         \<and> r = \<lparr>moduleDirectives = cachedModuleDirectives cached,
                  exportDirectives = cachedExportDirectives cached\<rparr>))
   \<and> (getCachedDirectives c sf = None \<longleftrightarrow>
      \<not> (\<exists>cached. fileCache c (objectId sf) = Some cached
         \<and> schemaVersion cached = CACHE_SCHEMA_VERSION
         \<and> cachedVersion cached = version sf))
   \<and> fileCache (setCachedDirectives sf moduleDirs exportDirs c) (objectId sf) =
        Some \<lparr>cachedModuleDirectives = moduleDirs, cachedExportDirectives = exportDirs,
              cachedVersion = version sf, schemaVersion = CACHE_SCHEMA_VERSION\<rparr>
   \<and> getCachedDirectives (setCachedDirectives sf moduleDirs exportDirs c) sf =
        Some \<lparr>moduleDirectives = moduleDirs, exportDirectives = exportDirs\<rparr>
   \<and> (\<forall>k. k \<noteq> objectId sf \<longrightarrow>
        fileCache (setCachedDirectives sf moduleDirs exportDirs c) k = fileCache c k)
   \<and> exportMap (setCachedDirectives sf moduleDirs exportDirs c) = exportMap c"
  by (auto simp: getCachedDirectives_def setCachedDirectives_def split: option.splits)

theorem getCachedDirectives_hit_iff_witness:
  "getCachedDirectives emptyCaches (exampleFile []) = None
   \<and> getCachedDirectives
        (setCachedDirectives (exampleFile []) [''use server''] [(''f'', ''use server'')] emptyCaches)
        (exampleFile []) =
      Some \<lparr>moduleDirectives = [''use server''], exportDirectives = [(''f'', ''use server'')]\<rparr>
   \<and> getCachedDirectives
        (setCachedDirectives (exampleFile []) [''use server''] [(''f'', ''use server'')] emptyCaches)
        ((exampleFile []) \<lparr>version := VersionString ''2''\<rparr>) = None"
  using getCachedDirectives_hit_iff [of emptyCaches "exampleFile []" undefined "[]" "[]"]
    getCachedDirectives_hit_iff [of emptyCaches "exampleFile []" undefined
      "[''use server'']" "[(''f'', ''use server'')]"]
    getCachedDirectives_hit_iff
      [of "setCachedDirectives (exampleFile []) [''use server''] [(''f'', ''use server'')] emptyCaches"
        "(exampleFile []) \<lparr>version := VersionString ''2''\<rparr>" undefined "[]" "[]"]
  by (simp add: emptyCaches_def exampleFile_def setCachedDirectives_def)

section \<open>Properties of the diagnostics pass\<close>

lemma getValidDirectives_throws:
  "declaredType tc ''DirectiveRegistry'' files = Throws \<Longrightarrow> getValidDirectives tc files = []"
  by (simp add: getValidDirectives_def)

text \<open>
  C7. When the lookup of the vocabulary throws, or yields no directive names, the vocabulary
  is empty and the diagnostics pass returns the prior diagnostics as they are.
\<close>

theorem getSemanticDiagnostics_no_vocabulary:
  assumes "declaredType (checker prog) ''DirectiveRegistry'' (fileNames prog) = Throws
           \<or> getValidDirectives (checker prog) (fileNames prog) = []"
  shows "getValidDirectives (checker prog) (fileNames prog) = []
         \<and> getSemanticDiagnostics name (Some prog) prior = prior name"
proof -
  from assms have "getValidDirectives (checker prog) (fileNames prog) = []"
    using getValidDirectives_throws by blast
  then show ?thesis
    by (simp add: getSemanticDiagnostics_def Let_def split: option.splits)
qed

theorem getSemanticDiagnostics_no_vocabulary_witness:
  "declaredType throwingChecker ''DirectiveRegistry'' [''test.ts''] = Throws
   \<and> getSemanticDiagnostics ''test.ts''
        (Some \<lparr>checker = throwingChecker,
               sourceFiles = [exampleFile [ExpressionStatement (StringLiteral 0 ''use nonsense'')]]\<rparr>)
        (\<lambda>name. [exampleDiagnostic]) = [exampleDiagnostic]"
proof -
  have t: "declaredType throwingChecker ''DirectiveRegistry'' [''test.ts''] = Throws"
    by (simp add: declaredType_def throwingChecker_def startsWith_def)
  have "fileNames \<lparr>checker = throwingChecker,
          sourceFiles = [exampleFile [ExpressionStatement (StringLiteral 0 ''use nonsense'')]]\<rparr>
        = [''test.ts'']"
    by (simp add: fileNames_def exampleFile_def)
  with t getSemanticDiagnostics_no_vocabulary
    [of "\<lparr>checker = throwingChecker,
          sourceFiles = [exampleFile [ExpressionStatement (StringLiteral 0 ''use nonsense'')]]\<rparr>"
      "''test.ts''" "\<lambda>name. [exampleDiagnostic]"]
  show ?thesis by simp
qed

section \<open>Properties of the suggestion engine\<close>

lemma maxDistance_eq: "maxDistance input = (if length input \<le> 10 then 2 else 3)"
proof -
  define c where "c = \<lceil>rat_of_nat (length input) * 0.2\<rceil>"
  have "c \<le> 2 \<longleftrightarrow> length input \<le> 10"
    unfolding c_def by (simp add: ceiling_le_iff)
  then have "nat (max 2 (min 3 c)) = (if length input \<le> 10 then 2 else 3)"
    by (auto simp: max_def min_def)
  then show ?thesis
    by (simp add: maxDistance_def c_def)
qed

lemma distanceTo_levenshteinDistance:
  "levenshteinDistance input d = Some (distanceTo input d)"
  by (simp add: distanceTo_def levenshteinDistance_editDistance)

lemma insort_key_map:
  "insort_key f (g x) (map g xs) = map g (insort_key (\<lambda>y. f (g y)) x xs)"
  by (induction xs) simp_all

lemma sort_key_map: "sort_key f (map g xs) = map g (sort_key (\<lambda>y. f (g y)) xs)"
  by (induction xs) (simp_all add: insort_key_map)

lemma findClosestDirectives_eq:
  "findClosestDirectives input validDirectives k =
     take k (sort_key (distanceTo input)
       (filter (\<lambda>d. distanceTo input d \<le> maxDistance input) validDirectives))"
proof -
  let ?g = "\<lambda>d. (d, distanceTo input d)"
  have "filter (\<lambda>p. snd p \<le> maxDistance input) (map ?g ys)
          = map ?g (filter (\<lambda>d. distanceTo input d \<le> maxDistance input) ys)" for ys
    by (induction ys) simp_all
  then show ?thesis
    by (simp add: findClosestDirectives_def sort_key_map take_map filter_sort comp_def)
qed

text \<open>
  C6. With the threshold \<open>max(2, min(3, ceil(len(input) * 0.2)))\<close>, the suggestion engine
  retains exactly the names of the vocabulary whose edit distance to the input is at most the
  threshold, sorts them by ascending distance, names of equal distance staying in the order
  of the vocabulary, and returns the first \<open>maxSuggestions\<close> of them: all of them when they
  are no more than that, and never more than \<open>maxSuggestions\<close> names.
\<close>

theorem findClosestDirectives_ranking:
  fixes input :: string and vocabulary :: "string list" and maxSuggestions :: nat
  defines "threshold \<equiv> nat (max 2 (min 3 \<lceil>rat_of_nat (length input) * 0.2\<rceil>))"
  defines "retained \<equiv> filter (\<lambda>d. distanceTo input d \<le> threshold) vocabulary"
  defines "ranked \<equiv> sort_key (distanceTo input) retained"
  shows "findClosestDirectives input vocabulary maxSuggestions = take maxSuggestions ranked
    \<and> (\<forall>d. levenshteinDistance input d = Some (distanceTo input d))
    \<and> set ranked = {d \<in> set vocabulary. distanceTo input d \<le> threshold}
    \<and> sorted (map (distanceTo input) ranked)
    \<and> (\<forall>n. filter (\<lambda>d. distanceTo input d = n) ranked
             = filter (\<lambda>d. distanceTo input d = n) retained)
    \<and> sorted (map (distanceTo input) (findClosestDirectives input vocabulary maxSuggestions))
    \<and> length (findClosestDirectives input vocabulary maxSuggestions) \<le> maxSuggestions
    \<and> (length retained \<le> maxSuggestions \<longrightarrow>
          set (findClosestDirectives input vocabulary maxSuggestions)
            = {d \<in> set vocabulary. distanceTo input d \<le> threshold})"
proof -
  have eq: "findClosestDirectives input vocabulary maxSuggestions = take maxSuggestions ranked"
    by (simp add: findClosestDirectives_eq ranked_def retained_def threshold_def maxDistance_def)
  have s: "sorted (map (distanceTo input) ranked)"
    by (simp add: ranked_def sorted_sort_key)
  have "sorted (take maxSuggestions (map (distanceTo input) ranked))"
    using s by (rule sorted_wrt_take)
  then have st: "sorted (map (distanceTo input) (take maxSuggestions ranked))"
    by (simp add: take_map)
  have stable: "filter (\<lambda>d. distanceTo input d = n) ranked
                  = filter (\<lambda>d. distanceTo input d = n) retained" for n
    unfolding ranked_def by (rule sort_key_stable)
  have members: "set ranked = {d \<in> set vocabulary. distanceTo input d \<le> threshold}"
    by (auto simp: ranked_def retained_def)
  have "length retained \<le> maxSuggestions \<Longrightarrow> take maxSuggestions ranked = ranked"
    by (simp add: ranked_def)
  with eq s st stable members distanceTo_levenshteinDistance show ?thesis
    by simp
qed

theorem findClosestDirectives_ranking_witness:
  "findClosestDirectives ''use serve''
     [''use strict'', ''use server'', ''use client'', ''use no memo''] 3 = [''use server'']
   \<and> levenshteinDistance ''use serve'' ''use server'' = Some 1
   \<and> length (filter (\<lambda>d. distanceTo ''use serve'' d \<le> 2)
        [''use strict'', ''use server'', ''use client'', ''use no memo'']) \<le> 3"
proof -
  have d: "distanceTo ''use serve'' ''use strict'' = 4"
    "distanceTo ''use serve'' ''use server'' = 1"
    "distanceTo ''use serve'' ''use client'' = 6"
    "distanceTo ''use serve'' ''use no memo'' = 6"
    unfolding distanceTo_def by code_simp+
  have t: "nat (max 2 (min 3 \<lceil>rat_of_nat (length ''use serve'') * 0.2\<rceil>)) = 2"
    using maxDistance_eq [of "''use serve''"] by (simp add: maxDistance_def)
  show ?thesis
    using findClosestDirectives_ranking
      [of "''use serve''" "[''use strict'', ''use server'', ''use client'', ''use no memo'']" 3]
    unfolding t by (simp add: d)
qed

section \<open>The diagnostics pass as a traversal\<close>

lemma fold_concat_map:
  assumes "\<And>x s. x \<in> set xs \<Longrightarrow> f x s = fold g (h x) s"
  shows "fold f xs s = fold g (concat (map h xs)) s"
  using assms by (induction xs arbitrary: s) simp_all

lemma visitCandidates_fold:
  "visitCandidates env occ st = fold (candidateAt env) (occurrencesOf occ) st"
proof (induction env occ st rule: visitCandidates.induct)
  case (1 env occ st)
  have "fold (visitCandidates env) (childOccurrences (snd (snd occ))) s
          = fold (candidateAt env) (concat (map occurrencesOf (childOccurrences (snd (snd occ))))) s"
    for s
    by (rule fold_concat_map) (rule 1)
  then show ?case
    by (subst visitCandidates.simps, subst occurrencesOf.simps) simp
qed

lemma getSemanticDiagnostics_fold:
  assumes "getSourceFile prog name = Some sf"
    and "getValidDirectives (checker prog) (fileNames prog) \<noteq> []"
  shows "getSemanticDiagnostics name (Some prog) prior =
       diags (fold (candidateAt (validationOf prog sf)) (fileOccurrences sf)
         \<lparr>diags = prior name, valid = getValidDirectives (checker prog) (fileNames prog)\<rparr>)"
proof -
  have "fold (visitCandidates env) occs s
          = fold (candidateAt env) (concat (map occurrencesOf occs)) s" for env occs s
    by (rule fold_concat_map) (rule visitCandidates_fold)
  with assms show ?thesis
    by (simp add: getSemanticDiagnostics_def Let_def fileOccurrences_def)
qed

lemma checkDirective_cases:
  "checkDirective env start text st = st
   \<or> (startsWith text ''use '' \<and>
       (\<exists>msg v. checkDirective env start text st =
          \<lparr>diags = diags st @ [invalidDiagnostic (checkedFile env) start text msg], valid = v\<rparr>))"
  by (auto simp: checkDirective_def reportInvalid_def split: option.splits)

lemma list_all_take_nth:
  "i \<le> length xs \<Longrightarrow> list_all P (take i xs) \<longleftrightarrow> (\<forall>k<i. P (xs ! k))"
  by (simp add: list_all_length)

lemma checkDirectivePosition_violation:
  assumes "wellIndexed (par, i, ExpressionStatement (StringLiteral start text))"
  shows "checkDirectivePosition name par i start text st =
           st\<lparr>diags := diags st
                @ positionViolation name (par, i, ExpressionStatement (StringLiteral start text))\<rparr>"
  using assms
  by (cases par)
    (auto simp: checkDirectivePosition_def positionViolation_def wellIndexed_def
      earlierNonDirective_def list_all_take_nth)


lemma candidateAt_concerns:
  "\<exists>new. diags (candidateAt env occ st) = diags st @ new \<and> (\<forall>d \<in> set new. concerns d occ)"
proof (cases occ)
  case (fields par i n)
  show ?thesis
  proof (cases "\<exists>start text. n = ExpressionStatement (StringLiteral start text) \<and> par \<noteq> ParentOther
                  \<and> startsWith text ''use ''")
    case True
    then obtain start lit where n: "n = ExpressionStatement (StringLiteral start lit)"
      and par: "par \<noteq> ParentOther" and use: "startsWith lit ''use ''"
      by blast
    let ?st1 = "checkDirectivePosition (checkedFile env) par i start lit st"
    have c: "candidateAt env occ st = checkDirective env start lit ?st1"
      using fields n par by (cases par) (simp_all add: candidateAt_def)
    have p: "\<exists>new. diags ?st1 = diags st @ new \<and> (\<forall>d \<in> set new. concerns d occ)"
      using fields n use
      by (cases par) (auto simp: checkDirectivePosition_def concerns_def positionDiagnostic_def)
    have q: "\<exists>new. diags (checkDirective env start lit ?st1) = diags ?st1 @ new
               \<and> (\<forall>d \<in> set new. concerns d occ)"
      using checkDirective_cases [of env start lit ?st1] fields n use
      by (auto simp: concerns_def invalidDiagnostic_def)
    from p q c show ?thesis
      by auto
  next
    case False
    have "candidateAt env occ st = st"
    proof (cases n)
      case (ExpressionStatement e)
      show ?thesis
      proof (cases e)
        case (StringLiteral start lit)
        with False ExpressionStatement fields show ?thesis
          by (cases par)
            (auto simp: candidateAt_def checkDirective_def checkDirectivePosition_def)
      qed (use fields ExpressionStatement in \<open>cases par; simp add: candidateAt_def\<close>)+
    qed (use fields in \<open>cases par; simp add: candidateAt_def\<close>)+
    then show ?thesis by simp
  qed
qed

lemma fold_candidateAt_concerns:
  "\<exists>new. diags (fold (candidateAt env) occs st) = diags st @ new
     \<and> (\<forall>d \<in> set new. \<exists>occ \<in> set occs. concerns d occ)"
proof (induction occs arbitrary: st)
  case Nil
  show ?case by simp
next
  case (Cons occ occs)
  obtain new1 where 1: "diags (candidateAt env occ st) = diags st @ new1"
    "\<forall>d \<in> set new1. concerns d occ"
    using candidateAt_concerns by blast
  obtain new2 where 2: "diags (fold (candidateAt env) occs (candidateAt env occ st))
      = diags (candidateAt env occ st) @ new2"
    "\<forall>d \<in> set new2. \<exists>oc \<in> set occs. concerns d oc"
    using Cons [of "candidateAt env occ st"] by blast
  from 1 2 have "diags (fold (candidateAt env) (occ # occs) st) = diags st @ (new1 @ new2)
     \<and> (\<forall>d \<in> set (new1 @ new2). \<exists>oc \<in> set (occ # occs). concerns d oc)"
    by auto
  then show ?case by blast
qed


lemma positionViolation_code:
  "filter (\<lambda>d. code d = 99002) (positionViolation name occ) = positionViolation name occ"
proof (cases occ)
  case (fields par i n)
  show ?thesis
  proof (cases n)
    case (ExpressionStatement e)
    with fields show ?thesis
      by (cases e; cases par) (simp_all add: positionViolation_def positionDiagnostic_def)
  qed (use fields in \<open>cases par; simp add: positionViolation_def\<close>)+
qed

lemma candidateAt_position:
  assumes "wellIndexed occ"
  shows "filter (\<lambda>d. code d = 99002) (diags (candidateAt env occ st))
           = filter (\<lambda>d. code d = 99002) (diags st) @ positionViolation (checkedFile env) occ"
proof (cases occ)
  case (fields par i n)
  show ?thesis
  proof (cases "\<exists>start lit. n = ExpressionStatement (StringLiteral start lit) \<and> par \<noteq> ParentOther")
    case True
    then obtain start lit where n: "n = ExpressionStatement (StringLiteral start lit)"
      and par: "par \<noteq> ParentOther"
      by blast
    let ?st1 = "checkDirectivePosition (checkedFile env) par i start lit st"
    have c: "candidateAt env occ st = checkDirective env start lit ?st1"
      using fields n par by (cases par) (simp_all add: candidateAt_def)
    have p: "diags ?st1 = diags st @ positionViolation (checkedFile env) occ"
      using checkDirectivePosition_violation [of par i start lit "checkedFile env" st] assms fields n
      by simp
    have q: "filter (\<lambda>d. code d = 99002) (diags (checkDirective env start lit ?st1))
               = filter (\<lambda>d. code d = 99002) (diags ?st1)"
      using checkDirective_cases [of env start lit ?st1]
      by (auto simp: invalidDiagnostic_def)
    from p q c show ?thesis
      by (simp add: positionViolation_code)
  next
    case False
    have "candidateAt env occ st = st \<and> positionViolation (checkedFile env) occ = []"
    proof (cases n)
      case (ExpressionStatement e)
      show ?thesis
      proof (cases e)
        case (StringLiteral start lit)
        with False ExpressionStatement fields show ?thesis
          by (cases par) (auto simp: candidateAt_def positionViolation_def)
      qed (use fields ExpressionStatement in
          \<open>cases par; simp add: candidateAt_def positionViolation_def\<close>)+
    qed (use fields in \<open>cases par; simp add: candidateAt_def positionViolation_def\<close>)+
    then show ?thesis by simp
  qed
qed

lemma fold_candidateAt_position:
  assumes "\<forall>occ \<in> set occs. wellIndexed occ"
  shows "filter (\<lambda>d. code d = 99002) (diags (fold (candidateAt env) occs st))
           = filter (\<lambda>d. code d = 99002) (diags st)
             @ concat (map (positionViolation (checkedFile env)) occs)"
  using assms
proof (induction occs arbitrary: st)
  case Nil
  show ?case by simp
next
  case (Cons occ occs)
  then show ?case
    by (simp add: candidateAt_position)
qed

lemma wellIndexed_statementOccurrences:
  assumes "par = ParentSourceFile \<or> par = ParentBlock"
    and "occ \<in> set (statementOccurrences par stmts)"
  shows "wellIndexed occ"
  using assms
  by (auto simp: statementOccurrences_def wellIndexed_def in_set_enumerate_eq)

lemma wellIndexed_childOccurrences: "occ \<in> set (childOccurrences n) \<Longrightarrow> wellIndexed occ"
  by (cases n)
    (auto simp: childOccurrences_def wellIndexed_def
      dest: wellIndexed_statementOccurrences [of ParentBlock, OF disjI2 [OF refl]])

lemma wellIndexed_occurrencesOf:
  "wellIndexed occ \<Longrightarrow> oc \<in> set (occurrencesOf occ) \<Longrightarrow> wellIndexed oc"
proof (induction occ arbitrary: oc rule: occurrencesOf.induct)
  case (1 occ)
  from 1(3) have "oc = occ \<or> (\<exists>c \<in> set (childOccurrences (snd (snd occ))). oc \<in> set (occurrencesOf c))"
    by (subst (asm) occurrencesOf.simps) auto
  with 1(1,2) wellIndexed_childOccurrences show ?case
    by blast
qed

lemma wellIndexed_fileOccurrences:
  assumes "occ \<in> set (fileOccurrences sf)"
  shows "wellIndexed occ"
proof -
  from assms obtain top where top: "top \<in> set (statementOccurrences ParentSourceFile (statements sf))"
    and occ: "occ \<in> set (occurrencesOf top)"
    by (auto simp: fileOccurrences_def)
  from top have "wellIndexed top"
    by (rule wellIndexed_statementOccurrences [OF disjI1 [OF refl]])
  then show ?thesis
    using occ by (rule wellIndexed_occurrencesOf)
qed

lemma example_vocabulary:
  "getValidDirectives (checker (exampleProgram stmts)) (fileNames (exampleProgram stmts)) =
     [''use strict'', ''use server'', ''use client'', ''use no memo'']"
  by (simp add: exampleProgram_def fileNames_def exampleFile_def getValidDirectives_def
      declaredType_def builtinChecker_def builtinRegistry_def getPropertiesOfType_def
      startsWith_def)

lemma example_sourceFile:
  "getSourceFile (exampleProgram stmts) ''test.ts'' = Some (exampleFile stmts)"
  by (simp add: getSourceFile_def exampleProgram_def exampleFile_def)

lemma example_directiveType:
  "directiveType (validationOf (exampleProgram stmts) (exampleFile stmts)) =
     Some (UnionType (map StringLiteralType [''use strict'', ''use server'', ''use client'', ''use no memo'']))"
  by (simp add: validationOf_def lookupDirectiveType_def exampleProgram_def exampleFile_def
      builtinChecker_def builtinRegistry_def)


lemma occurrences_misplacedModule:
  "fileOccurrences (exampleFile misplacedModule) =
     [(ParentSourceFile misplacedModule, 0,
         VariableStatement [] [VariableDeclaration (Some ''x'') [] (Some (OtherNode []))]),
      (ParentOther, 0, VariableDeclaration (Some ''x'') [] (Some (OtherNode []))),
      (ParentOther, 0, OtherNode []),
      (ParentSourceFile misplacedModule, 1, ExpressionStatement (StringLiteral 13 ''use server'')),
      (ParentOther, 0, StringLiteral 13 ''use server'')]"
  by (simp add: fileOccurrences_def exampleFile_def statementOccurrences_def occurrencesOf.simps
      childOccurrences_def misplacedModule_def)

lemma diagnostics_misplacedModule:
  "getSemanticDiagnostics ''test.ts'' (Some (exampleProgram misplacedModule)) (\<lambda>name. [])
     = [positionDiagnostic ''test.ts'' 13 ''use server'' ''module body'']"
  unfolding getSemanticDiagnostics_fold
    [OF example_sourceFile, unfolded example_vocabulary, simplified] occurrences_misplacedModule
  apply (simp add: candidateAt_def)
  apply (simp add: checkDirectivePosition_def checkDirective_def example_directiveType
      startsWith_def)
  apply (simp add: validationOf_def exampleProgram_def exampleFile_def builtinChecker_def
      misplacedModule_def isDirectiveStatement_def)
  done

lemma occurrences_greetingModule:
  "fileOccurrences (exampleFile greetingModule) =
     [(ParentSourceFile greetingModule, 0, ExpressionStatement (StringLiteral 0 ''hello world'')),
      (ParentOther, 0, StringLiteral 0 ''hello world''),
      (ParentSourceFile greetingModule, 1, ExpressionStatement (StringLiteral 15 ''use server'')),
      (ParentOther, 0, StringLiteral 15 ''use server'')]"
  by (simp add: fileOccurrences_def exampleFile_def statementOccurrences_def occurrencesOf.simps
      childOccurrences_def greetingModule_def)

lemma diagnostics_greetingModule:
  "getSemanticDiagnostics ''test.ts'' (Some (exampleProgram greetingModule))
       (\<lambda>name. [exampleDiagnostic])
     = [exampleDiagnostic, positionDiagnostic ''test.ts'' 15 ''use server'' ''module body'']"
  unfolding getSemanticDiagnostics_fold
    [OF example_sourceFile, unfolded example_vocabulary, simplified] occurrences_greetingModule
  apply (simp add: candidateAt_def)
  apply (simp add: checkDirectivePosition_def checkDirective_def example_directiveType
      startsWith_def)
  apply (simp add: validationOf_def exampleProgram_def exampleFile_def builtinChecker_def
      greetingModule_def isDirectiveStatement_def startsWith_def)
  done

lemma occurrences_misplacedFunction:
  "fileOccurrences (exampleFile misplacedFunction) =
     [(ParentSourceFile misplacedFunction, 0,
         FunctionLike FunctionDeclaration [ExportKeyword] (Some ''action'') []
           (Some (Block misplacedBody))),
      (ParentOther, 0, Block misplacedBody),
      (ParentBlock misplacedBody, 0,
         VariableStatement [] [VariableDeclaration (Some ''x'') [] (Some (OtherNode []))]),
      (ParentOther, 0, VariableDeclaration (Some ''x'') [] (Some (OtherNode []))),
      (ParentOther, 0, OtherNode []),
      (ParentBlock misplacedBody, 1, ExpressionStatement (StringLiteral 44 ''use server'')),
      (ParentOther, 0, StringLiteral 44 ''use server''),
      (ParentBlock misplacedBody, 2, OtherNode [OtherNode []]),
      (ParentOther, 0, OtherNode [])]"
  by (simp add: fileOccurrences_def exampleFile_def statementOccurrences_def occurrencesOf.simps
      childOccurrences_def misplacedFunction_def misplacedBody_def)

lemma occurrences_leadingModule:
  "fileOccurrences (exampleFile leadingModule) =
     [(ParentSourceFile leadingModule, 0, ExpressionStatement (StringLiteral 0 ''use client'')),
      (ParentOther, 0, StringLiteral 0 ''use client''),
      (ParentSourceFile leadingModule, 1, ExpressionStatement (StringLiteral 14 ''use no memo'')),
      (ParentOther, 0, StringLiteral 14 ''use no memo''),
      (ParentSourceFile leadingModule, 2,
         VariableStatement [] [VariableDeclaration (Some ''x'') [] (Some (OtherNode []))]),
      (ParentOther, 0, VariableDeclaration (Some ''x'') [] (Some (OtherNode []))),
      (ParentOther, 0, OtherNode [])]"
  by (simp add: fileOccurrences_def exampleFile_def statementOccurrences_def occurrencesOf.simps
      childOccurrences_def leadingModule_def)

lemma plain_vocabulary:
  "getValidDirectives (checker (plainProgram stmts)) (fileNames (plainProgram stmts)) = []"
  by (simp add: plainProgram_def fileNames_def exampleFile_def getValidDirectives_def
      declaredType_def plainChecker_def startsWith_def)

lemma plain_sourceFile:
  "getSourceFile (plainProgram stmts) ''test.ts'' = Some (exampleFile stmts)"
  by (simp add: getSourceFile_def plainProgram_def exampleFile_def)

text \<open>
  C4, as stated: every directive-like string literal statement that follows a statement which
  is not directive-like is reported, and the module \<open>const x = 1;\n"use server";\<close> gets
  exactly one violation. The position check is local to \<open>getSemanticDiagnostics\<close>, which
  returns the prior diagnostics before it visits any statement when the vocabulary is empty
  (\<open>Can't validate if we can't read the type\<close>). In a project that does not declare the
  registry, the second statement of that module is directive-like, the first one is not, and
  the pass reports nothing.
\<close>

theorem checkDirectivePosition_vocabulary_counterexample:
  "getSourceFile (plainProgram misplacedModule) ''test.ts'' = Some (exampleFile misplacedModule)
   \<and> statements (exampleFile misplacedModule) = misplacedModule
   \<and> misplacedModule ! 1 = ExpressionStatement (StringLiteral 13 ''use server'')
   \<and> isDirectiveStatement (misplacedModule ! 1)
   \<and> \<not> isDirectiveStatement (misplacedModule ! 0)
   \<and> getValidDirectives (checker (plainProgram misplacedModule))
        (fileNames (plainProgram misplacedModule)) = []
   \<and> getSemanticDiagnostics ''test.ts'' (Some (plainProgram misplacedModule)) noDiagnostics = []"
  by (simp add: plain_sourceFile plain_vocabulary getSemanticDiagnostics_def noDiagnostics_def
      exampleFile_def misplacedModule_def isDirectiveStatement_def startsWith_def)

text \<open>
  C4, amended: the position check reports a directive-like string literal statement of a
  module or of a block if and only if some earlier statement of the same sequence is not a
  directive-like string literal statement, and the report names the module body for a
  source file and the function body for a block. When the vocabulary is not empty, the
  reports with code 99002 of the whole pass are these violations, for the statements of the
  file in the order of the traversal; when the vocabulary is empty, the pass returns the
  prior diagnostics and reports no violation. With the built-in registry the module
  \<open>const x = 1;\n"use server";\<close> gets exactly one diagnostic, which names the module body.
\<close>

theorem checkDirectivePosition_iff:
  "(i < length stmts \<and> stmts ! i = ExpressionStatement (StringLiteral start text)
      \<and> startsWith text ''use '' \<longrightarrow>
      checkDirectivePosition name (ParentSourceFile stmts) i start text st =
        (if \<exists>k<i. \<not> isDirectiveStatement (stmts ! k)
         then st\<lparr>diags := diags st @ [positionDiagnostic name start text ''module body'']\<rparr>
         else st)
      \<and> checkDirectivePosition name (ParentBlock stmts) i start text st =
        (if \<exists>k<i. \<not> isDirectiveStatement (stmts ! k)
         then st\<lparr>diags := diags st @ [positionDiagnostic name start text ''function body'']\<rparr>
         else st))
   \<and> (getSourceFile prog name = Some sf
        \<and> getValidDirectives (checker prog) (fileNames prog) \<noteq> [] \<longrightarrow>
      filter (\<lambda>d. code d = 99002) (getSemanticDiagnostics name (Some prog) prior) =
        filter (\<lambda>d. code d = 99002) (prior name)
        @ concat (map (positionViolation (fileName sf)) (fileOccurrences sf)))
   \<and> (getValidDirectives (checker prog) (fileNames prog) = [] \<longrightarrow>
        getSemanticDiagnostics name (Some prog) prior = prior name)
   \<and> getSemanticDiagnostics ''test.ts'' (Some (exampleProgram misplacedModule)) (\<lambda>name. [])
        = [positionDiagnostic ''test.ts'' 13 ''use server'' ''module body'']
   \<and> messageText (positionDiagnostic ''test.ts'' 13 ''use server'' ''module body'')
        = ''Directive '' @ [CHR 0x22] @ ''use server'' @ [CHR 0x22]
          @ '' must be at the beginning of the module body''"
proof -
  have a: "checkDirectivePosition name (ParentSourceFile stmts) i start text st =
        (if \<exists>k<i. \<not> isDirectiveStatement (stmts ! k)
         then st\<lparr>diags := diags st @ [positionDiagnostic name start text ''module body'']\<rparr>
         else st)
      \<and> checkDirectivePosition name (ParentBlock stmts) i start text st =
        (if \<exists>k<i. \<not> isDirectiveStatement (stmts ! k)
         then st\<lparr>diags := diags st @ [positionDiagnostic name start text ''function body'']\<rparr>
         else st)"
    if "i < length stmts" "stmts ! i = ExpressionStatement (StringLiteral start text)"
      "startsWith text ''use ''"
    using that
      checkDirectivePosition_violation [of "ParentSourceFile stmts" i start "text" name st]
      checkDirectivePosition_violation [of "ParentBlock stmts" i start "text" name st]
    by (simp add: wellIndexed_def positionViolation_def earlierNonDirective_def)
  have b: "filter (\<lambda>d. code d = 99002) (getSemanticDiagnostics name (Some prog) prior) =
        filter (\<lambda>d. code d = 99002) (prior name)
        @ concat (map (positionViolation (fileName sf)) (fileOccurrences sf))"
    if "getSourceFile prog name = Some sf"
      "getValidDirectives (checker prog) (fileNames prog) \<noteq> []"
    using getSemanticDiagnostics_fold [OF that]
      fold_candidateAt_position [of "fileOccurrences sf" "validationOf prog sf"]
      wellIndexed_fileOccurrences [of _ sf]
    by (simp add: validationOf_def)
  have c: "messageText (positionDiagnostic ''test.ts'' 13 ''use server'' ''module body'')
        = ''Directive '' @ [CHR 0x22] @ ''use server'' @ [CHR 0x22]
          @ '' must be at the beginning of the module body''"
    by (simp add: positionDiagnostic_def doubleQuoted_def)
  have d: "getSemanticDiagnostics name (Some prog) prior = prior name"
    if "getValidDirectives (checker prog) (fileNames prog) = []"
    using that by (simp add: getSemanticDiagnostics_def Let_def split: option.splits)
  from a b c d diagnostics_misplacedModule show ?thesis
    by blast
qed

theorem checkDirectivePosition_iff_witness:
  "1 < length misplacedBody
   \<and> misplacedBody ! 1 = ExpressionStatement (StringLiteral 44 ''use server'')
   \<and> startsWith ''use server'' ''use ''
   \<and> \<not> isDirectiveStatement (misplacedBody ! 0)
   \<and> checkDirectivePosition ''test.ts'' (ParentBlock misplacedBody) 1 44 ''use server''
        \<lparr>diags = [], valid = []\<rparr>
      = \<lparr>diags = [positionDiagnostic ''test.ts'' 44 ''use server'' ''function body''], valid = []\<rparr>
   \<and> getSourceFile (exampleProgram misplacedFunction) ''test.ts''
      = Some (exampleFile misplacedFunction)
   \<and> filter (\<lambda>d. code d = 99002)
        (getSemanticDiagnostics ''test.ts'' (Some (exampleProgram misplacedFunction)) (\<lambda>name. []))
      = [positionDiagnostic ''test.ts'' 44 ''use server'' ''function body'']
   \<and> 1 < length leadingModule
   \<and> leadingModule ! 1 = ExpressionStatement (StringLiteral 14 ''use no memo'')
   \<and> startsWith ''use no memo'' ''use ''
   \<and> isDirectiveStatement (leadingModule ! 0)
   \<and> checkDirectivePosition ''test.ts'' (ParentSourceFile leadingModule) 1 14 ''use no memo''
        \<lparr>diags = [], valid = []\<rparr>
      = \<lparr>diags = [], valid = []\<rparr>
   \<and> getSourceFile (exampleProgram leadingModule) ''test.ts'' = Some (exampleFile leadingModule)
   \<and> filter (\<lambda>d. code d = 99002)
        (getSemanticDiagnostics ''test.ts'' (Some (exampleProgram leadingModule)) (\<lambda>name. []))
      = []
   \<and> getValidDirectives (checker (plainProgram misplacedModule))
        (fileNames (plainProgram misplacedModule)) = []
   \<and> getSemanticDiagnostics ''test.ts'' (Some (plainProgram misplacedModule))
        (\<lambda>name. [exampleDiagnostic]) = [exampleDiagnostic]"
proof -
  have "\<not> isDirectiveStatement (misplacedBody ! 0)"
    by (simp add: misplacedBody_def isDirectiveStatement_def)
  then have e': "\<exists>k<1. \<not> isDirectiveStatement (misplacedBody ! k)"
    by (intro exI [of _ 0]) simp
  then have e: "earlierNonDirective misplacedBody (Suc 0)"
    unfolding earlierNonDirective_def by simp
  have v: "concat (map (positionViolation ''test.ts'') (fileOccurrences (exampleFile misplacedFunction)))
      = [positionDiagnostic ''test.ts'' 44 ''use server'' ''function body'']"
    unfolding occurrences_misplacedFunction
    by (simp add: positionViolation_def e startsWith_def)
  have f: "fileName (exampleFile stmts) = ''test.ts''" for stmts
    by (simp add: exampleFile_def)
  have l0: "isDirectiveStatement (leadingModule ! 0)"
    by (simp add: leadingModule_def isDirectiveStatement_def startsWith_def)
  then have l': "\<not> (\<exists>k<1. \<not> isDirectiveStatement (leadingModule ! k))"
    by simp
  then have l: "\<not> earlierNonDirective leadingModule (Suc 0)"
    unfolding earlierNonDirective_def by simp
  have l00: "\<not> earlierNonDirective leadingModule 0"
    by (simp add: earlierNonDirective_def)
  have w: "concat (map (positionViolation ''test.ts'') (fileOccurrences (exampleFile leadingModule)))
      = []"
    unfolding occurrences_leadingModule
    by (simp add: positionViolation_def l l00)
  from checkDirectivePosition_iff
    [of 1 misplacedBody 44 "''use server''" "''test.ts''" "\<lparr>diags = [], valid = []\<rparr>"
      "exampleProgram misplacedFunction" "exampleFile misplacedFunction" "\<lambda>name. []"]
    e' v f example_sourceFile [of misplacedFunction] example_vocabulary [of misplacedFunction]
  have 1: "1 < length misplacedBody
   \<and> misplacedBody ! 1 = ExpressionStatement (StringLiteral 44 ''use server'')
   \<and> startsWith ''use server'' ''use ''
   \<and> \<not> isDirectiveStatement (misplacedBody ! 0)
   \<and> checkDirectivePosition ''test.ts'' (ParentBlock misplacedBody) 1 44 ''use server''
        \<lparr>diags = [], valid = []\<rparr>
      = \<lparr>diags = [positionDiagnostic ''test.ts'' 44 ''use server'' ''function body''], valid = []\<rparr>
   \<and> getSourceFile (exampleProgram misplacedFunction) ''test.ts''
      = Some (exampleFile misplacedFunction)
   \<and> filter (\<lambda>d. code d = 99002)
        (getSemanticDiagnostics ''test.ts'' (Some (exampleProgram misplacedFunction)) (\<lambda>name. []))
      = [positionDiagnostic ''test.ts'' 44 ''use server'' ''function body'']"
    by (simp add: misplacedBody_def startsWith_def isDirectiveStatement_def)
  from checkDirectivePosition_iff
    [of 1 leadingModule 14 "''use no memo''" "''test.ts''" "\<lparr>diags = [], valid = []\<rparr>"
      "exampleProgram leadingModule" "exampleFile leadingModule" "\<lambda>name. []"]
    l' w f example_sourceFile [of leadingModule] example_vocabulary [of leadingModule]
  have 2: "1 < length leadingModule
   \<and> leadingModule ! 1 = ExpressionStatement (StringLiteral 14 ''use no memo'')
   \<and> startsWith ''use no memo'' ''use ''
   \<and> isDirectiveStatement (leadingModule ! 0)
   \<and> checkDirectivePosition ''test.ts'' (ParentSourceFile leadingModule) 1 14 ''use no memo''
        \<lparr>diags = [], valid = []\<rparr>
      = \<lparr>diags = [], valid = []\<rparr>
   \<and> getSourceFile (exampleProgram leadingModule) ''test.ts'' = Some (exampleFile leadingModule)
   \<and> filter (\<lambda>d. code d = 99002)
        (getSemanticDiagnostics ''test.ts'' (Some (exampleProgram leadingModule)) (\<lambda>name. []))
      = []"
    by (simp add: leadingModule_def startsWith_def isDirectiveStatement_def)
  from checkDirectivePosition_iff
    [of 1 misplacedBody 44 "''use server''" "''test.ts''" "\<lparr>diags = [], valid = []\<rparr>"
      "plainProgram misplacedModule" "exampleFile misplacedModule" "\<lambda>name. [exampleDiagnostic]"]
    plain_vocabulary [of misplacedModule]
  have 3: "getValidDirectives (checker (plainProgram misplacedModule))
        (fileNames (plainProgram misplacedModule)) = []
   \<and> getSemanticDiagnostics ''test.ts'' (Some (plainProgram misplacedModule))
        (\<lambda>name. [exampleDiagnostic]) = [exampleDiagnostic]"
    by simp
  from 1 2 3 show ?thesis
    by blast
qed

text \<open>
  C10. Every diagnostic that the pass adds to the prior ones is about a string literal
  statement of the file whose text starts with \<open>use \<close>: its span is that text. Neither check
  reports a string literal whose text does not start with \<open>use \<close>, whatever its position
  and whatever the vocabulary.
\<close>

theorem diagnostics_concern_directives:
  "(\<exists>new. getSemanticDiagnostics name languageService prior = prior name @ new
      \<and> (\<forall>d \<in> set new. \<exists>prog sf occ. languageService = Some prog
            \<and> getSourceFile prog name = Some sf
            \<and> occ \<in> set (fileOccurrences sf) \<and> concerns d occ))
   \<and> (\<not> startsWith text ''use '' \<longrightarrow>
        checkDirectivePosition name par i start text st = st
        \<and> checkDirective env start text st = st)"
proof -
  have 1: "\<exists>new. getSemanticDiagnostics name languageService prior = prior name @ new
      \<and> (\<forall>d \<in> set new. \<exists>prog sf occ. languageService = Some prog
            \<and> getSourceFile prog name = Some sf
            \<and> occ \<in> set (fileOccurrences sf) \<and> concerns d occ)"
  proof (cases "\<exists>prog sf. languageService = Some prog \<and> getSourceFile prog name = Some sf
                  \<and> getValidDirectives (checker prog) (fileNames prog) \<noteq> []")
    case True
    then obtain prog sf where p: "languageService = Some prog"
      and s: "getSourceFile prog name = Some sf"
      and v: "getValidDirectives (checker prog) (fileNames prog) \<noteq> []"
      by blast
    from fold_candidateAt_concerns
      [of "validationOf prog sf" "fileOccurrences sf"
        "\<lparr>diags = prior name, valid = getValidDirectives (checker prog) (fileNames prog)\<rparr>"]
    obtain new where new: "diags (fold (candidateAt (validationOf prog sf)) (fileOccurrences sf)
          \<lparr>diags = prior name, valid = getValidDirectives (checker prog) (fileNames prog)\<rparr>)
        = prior name @ new"
      "\<forall>d \<in> set new. \<exists>occ \<in> set (fileOccurrences sf). concerns d occ"
      by auto
    from new(1) have "getSemanticDiagnostics name languageService prior = prior name @ new"
      using getSemanticDiagnostics_fold [OF s v] p by simp
    with new(2) p s show ?thesis
      by blast
  next
    case False
    then have "getSemanticDiagnostics name languageService prior = prior name @ []"
      by (auto simp: getSemanticDiagnostics_def Let_def split: option.splits)
    then show ?thesis
      by (metis empty_iff list.set(1))
  qed
  have 2: "checkDirectivePosition name par i start text st = st
        \<and> checkDirective env start text st = st" if "\<not> startsWith text ''use ''"
    using that by (simp add: checkDirectivePosition_def checkDirective_def)
  from 1 2 show ?thesis
    by blast
qed

theorem diagnostics_concern_directives_witness:
  "getSemanticDiagnostics ''test.ts'' (Some (exampleProgram greetingModule))
       (\<lambda>name. [exampleDiagnostic])
     = [exampleDiagnostic] @ [positionDiagnostic ''test.ts'' 15 ''use server'' ''module body'']
   \<and> (ParentSourceFile greetingModule, 1, ExpressionStatement (StringLiteral 15 ''use server''))
       \<in> set (fileOccurrences (exampleFile greetingModule))
   \<and> concerns (positionDiagnostic ''test.ts'' 15 ''use server'' ''module body'')
        (ParentSourceFile greetingModule, 1, ExpressionStatement (StringLiteral 15 ''use server''))
   \<and> \<not> startsWith ''hello world'' ''use ''
   \<and> checkDirectivePosition ''test.ts'' (ParentSourceFile greetingModule) 0 0 ''hello world''
        \<lparr>diags = [], valid = [''use server'']\<rparr> = \<lparr>diags = [], valid = [''use server'']\<rparr>
   \<and> checkDirective (validationOf (exampleProgram greetingModule) (exampleFile greetingModule))
        0 ''hello world'' \<lparr>diags = [], valid = [''use server'']\<rparr>
       = \<lparr>diags = [], valid = [''use server'']\<rparr>"
  using diagnostics_concern_directives
    [of "''test.ts''" "Some (exampleProgram greetingModule)" "\<lambda>name. [exampleDiagnostic]"
      "''hello world''" "ParentSourceFile greetingModule" 0 0
      "\<lparr>diags = [], valid = [''use server'']\<rparr>"
      "validationOf (exampleProgram greetingModule) (exampleFile greetingModule)"]
  by (simp add: diagnostics_greetingModule occurrences_greetingModule concerns_def
      positionDiagnostic_def startsWith_def)

section \<open>Properties of the scanner\<close>

lemma truthy_None [simp]: "\<not> truthy None"
  by (simp add: truthy_def)

lemma truthy_Some [simp]: "truthy (Some s) \<longleftrightarrow> s \<noteq> []"
  by (simp add: truthy_def)

lemma collectDeclarationDirectives_fold:
  "collectDeclarationDirectives v md n dd = fold (collectAt v md) (nodesOf n) dd"
proof (induction v md n dd rule: collectDeclarationDirectives.induct)
  case (1 v md n dd)
  have "fold (collectDeclarationDirectives v md) (forEachChild n) s
          = fold (collectAt v md) (concat (map nodesOf (forEachChild n))) s" for s
    by (rule fold_concat_map) (rule 1)
  then show ?case
    by (subst collectDeclarationDirectives.simps, subst nodesOf.simps) simp
qed

lemma visit_fold: "visit v md dd n ex = fold (visitAt v md dd) (nodesOf n) ex"
proof (induction v md dd n ex rule: visit.induct)
  case (1 v md dd n ex)
  have "fold (visit v md dd) (forEachChild n) s
          = fold (visitAt v md dd) (concat (map nodesOf (forEachChild n))) s" for s
    by (rule fold_concat_map) (rule 1)
  then show ?case
    by (subst visit.simps, subst nodesOf.simps) simp
qed

lemma recordVariable_entries:
  "recordVariable v md decl dd = fold (recordEntry md) (declaredVariable v decl) dd"
  by (induction v decl rule: declaredVariable.induct)
    (simp_all add: recordDeclaration_def recordEntry_def Let_def)

lemma collectAt_entries: "collectAt v md n dd = fold (recordEntry md) (declaredAt v n) dd"
proof (induction v n rule: declaredAt.induct)
  case (2 v modifiers decls)
  have "fold (recordVariable v md) decls s
          = fold (recordEntry md) (concat (map (declaredVariable v) decls)) s" for s
    by (rule fold_concat_map) (rule recordVariable_entries)
  then show ?case by simp
qed (simp_all add: recordDeclaration_def recordEntry_def Let_def)

lemma exportVariable_writes:
  "exportVariable dd decl ex = fold setIfTruthy (exportedVariableWrite dd decl) ex"
  by (induction dd decl rule: exportedVariableWrite.induct)
    (simp_all add: exportIfDirective_def setIfTruthy_def Let_def)

lemma visitAt_writes: "visitAt v md dd n ex = fold setIfTruthy (exportWritesAt v md dd n) ex"
proof (induction v md dd n rule: exportWritesAt.induct)
  case (2 v md dd modifiers decls)
  have "fold (exportVariable dd) decls s
          = fold setIfTruthy (concat (map (exportedVariableWrite dd) decls)) s" for s
    by (rule fold_concat_map) (rule exportVariable_writes)
  then show ?case by simp
next
  case (4 v md dd elements moduleSpecifier)
  have "fold (exportSpecifier dd) els s
          = fold setIfTruthy
              (map (\<lambda>element. (snd element, map_of dd (specifierLocalName element))) els) s"
    for els s
    by (induction els arbitrary: s)
      (simp_all add: exportSpecifier_def exportIfDirective_def setIfTruthy_def Let_def
        specifierLocalName_def)
  then show ?case by simp
qed (simp_all add: setIfTruthy_def Let_def)


lemma scanFileDirectives_fold:
  "scanFileDirectives sf prog =
     (let v = getValidDirectives (checker prog) (fileNames prog);
          topLevel = getTopLevelDirectives sf prog;
          md = (case topLevel of [] \<Rightarrow> None | d # _ \<Rightarrow> Some d);
          dd = fold (recordEntry md) (declaredIn v sf) []
      in \<lparr>moduleDirectives = topLevel,
          exportDirectives =
            fold setIfTruthy (concat (map (exportWritesAt v md dd) (fileNodes sf))) []\<rparr>)"
proof -
  have 1: "fold (collectDeclarationDirectives v md) ns s
        = fold (recordEntry md) (concat (map (declaredAt v) (concat (map nodesOf ns)))) s"
    for v md ns s
  proof -
    have "fold (collectDeclarationDirectives v md) ns s
            = fold (collectAt v md) (concat (map nodesOf ns)) s"
      by (rule fold_concat_map) (rule collectDeclarationDirectives_fold)
    also have "\<dots> = fold (recordEntry md) (concat (map (declaredAt v) (concat (map nodesOf ns)))) s"
      by (rule fold_concat_map) (rule collectAt_entries)
    finally show ?thesis .
  qed
  have 2: "fold (visit v md dd) ns s
        = fold setIfTruthy (concat (map (exportWritesAt v md dd) (concat (map nodesOf ns)))) s"
    for v md dd ns s
  proof -
    have "fold (visit v md dd) ns s = fold (visitAt v md dd) (concat (map nodesOf ns)) s"
      by (rule fold_concat_map) (rule visit_fold)
    also have "\<dots> = fold setIfTruthy (concat (map (exportWritesAt v md dd) (concat (map nodesOf ns)))) s"
      by (rule fold_concat_map) (rule visitAt_writes)
    finally show ?thesis .
  qed
  show ?thesis
    by (simp add: scanFileDirectives_def Let_def 1 2 declaredIn_def fileNodes_def)
qed























lemma nodes_shadowingModule:
  "fileNodes (exampleFile shadowingModule) =
     [ExpressionStatement (StringLiteral 0 ''use server''), StringLiteral 0 ''use server'',
      FunctionLike FunctionDeclaration [ExportKeyword] (Some ''f'') [] (Some (Block [])),
      Block [],
      FunctionLike FunctionDeclaration [] (Some ''helper'') []
        (Some (Block
          [FunctionLike FunctionDeclaration [] (Some ''f'') []
             (Some (Block [ExpressionStatement (StringLiteral 76 ''use client'')]))])),
      Block
        [FunctionLike FunctionDeclaration [] (Some ''f'') []
           (Some (Block [ExpressionStatement (StringLiteral 76 ''use client'')]))],
      FunctionLike FunctionDeclaration [] (Some ''f'') []
        (Some (Block [ExpressionStatement (StringLiteral 76 ''use client'')])),
      Block [ExpressionStatement (StringLiteral 76 ''use client'')],
      ExpressionStatement (StringLiteral 76 ''use client''), StringLiteral 76 ''use client'']"
  by (simp add: fileNodes_def exampleFile_def shadowingModule_def nodesOf.simps)





lemma declared_shadowingModule:
  "declaredIn (getValidDirectives (checker (exampleProgram shadowingModule))
       (fileNames (exampleProgram shadowingModule))) (exampleFile shadowingModule)
     = [(''f'', None), (''helper'', None), (''f'', Some ''use client'')]"
  by (simp add: declaredIn_def nodes_shadowingModule getDirectiveOfNode_def getFirstDirective_def
      example_vocabulary matchDirective_def)






section \<open>Properties of the import resolver\<close>

lemma lookupImportedDirective_exportMap:
  "exportMap (snd (lookupImportedDirective prog resolvedModule exportedName c)) = exportMap c"
  by (simp add: lookupImportedDirective_def setCachedDirectives_def Let_def split: option.splits)

lemma getImportDirective_exportMap:
  "exportMap (snd (getImportDirective resolveModuleName prog declarations c)) = exportMap c"
proof (induction declarations arbitrary: c)
  case Nil
  show ?case by simp
next
  case (Cons decl declarations)
  show ?case
    using Cons.IH lookupImportedDirective_exportMap
    by (auto split: option.splits prod.splits) (metis snd_conv)+
qed

lemma scan_actionsFile:
  "scanFileDirectives actionsFile importingProgram =
     \<lparr>moduleDirectives = [], exportDirectives = [(''f'', ''use client'')]\<rparr>"
  by code_simp

lemma set_alist_update: "set (AList.update k v al) \<subseteq> insert (k, v) (set al)"
  by (induction al) auto

lemma setIfTruthy_invariant:
  assumes "distinct (map fst m)" and "\<forall>entry \<in> set m. snd entry \<noteq> []"
  shows "distinct (map fst (fold setIfTruthy ws m))
         \<and> (\<forall>entry \<in> set (fold setIfTruthy ws m). snd entry \<noteq> [])"
  using assms
proof (induction ws arbitrary: m)
  case Nil
  then show ?case by simp
next
  case (Cons w ws)
  have "distinct (map fst (setIfTruthy w m))"
    using Cons.prems(1) by (simp add: setIfTruthy_def distinct_update)
  moreover have "\<forall>entry \<in> set (setIfTruthy w m). snd entry \<noteq> []"
  proof (cases "truthy (snd w)")
    case True
    then obtain d where d: "snd w = Some d" "d \<noteq> []"
      by (cases "snd w") (simp_all add: truthy_def)
    have "set (AList.update (fst w) d m) \<subseteq> insert (fst w, d) (set m)"
      by (rule set_alist_update)
    with Cons.prems(2) d show ?thesis
      by (auto simp: setIfTruthy_def truthy_def)
  next
    case False
    with Cons.prems(2) show ?thesis
      by (simp add: setIfTruthy_def)
  qed
  ultimately show ?case
    using Cons.IH by simp
qed

lemma scan_exports_wellformed:
  "distinct (map fst (exportDirectives (scanFileDirectives sf prog)))
   \<and> (\<forall>entry \<in> set (exportDirectives (scanFileDirectives sf prog)). snd entry \<noteq> [])"
  using setIfTruthy_invariant [of "[]"] by (simp add: scanFileDirectives_fold Let_def)

lemma exportKey_inject [simp]: "exportKey name e1 = exportKey name e2 \<longleftrightarrow> e1 = e2"
  by (simp add: exportKey_def)

lemma exportMap_setCachedDirectives [simp]:
  "exportMap (setCachedDirectives sf md ed c) = exportMap c"
  by (simp add: setCachedDirectives_def)

lemma fold_setExportDirective:
  "exportMap (fold (\<lambda>(exportName, d). setExportDirective name exportName d) xs c)
     = fold (\<lambda>(exportName, d). AList.update (exportKey name exportName) d) xs (exportMap c)"
  by (induction xs arbitrary: c) (auto simp: setExportDirective_def)

lemma map_of_fold_update:
  assumes "distinct (map fst xs)"
  shows "map_of (fold (\<lambda>(exportName, d). AList.update (exportKey name exportName) d) xs m)
           (exportKey name e)
         = (case map_of xs e of Some d \<Rightarrow> Some d | None \<Rightarrow> map_of m (exportKey name e))"
  using assms
proof (induction xs arbitrary: m)
  case Nil
  show ?case by simp
next
  case (Cons x xs)
  obtain k d where x: "x = (k, d)" by (cases x)
  show ?case
  proof (cases "k = e")
    case True
    with Cons.prems x have "map_of xs e = None"
      by (simp add: map_of_eq_None_iff)
    with Cons x True show ?thesis
      by (simp add: update_conv')
  next
    case False
    with Cons x show ?thesis
      by (simp add: update_conv' split: option.splits)
  qed
qed

lemma map_of_cleared:
  "map_of (exportMap (clearExportDirectives name c)) (exportKey name e) = None"
proof -
  have "startsWith (exportKey name e) (normalizeFilePath name @ ''::'')"
    by (simp add: exportKey_def startsWith_def)
  then show ?thesis
    by (auto simp: clearExportDirectives_def map_of_eq_None_iff)
qed

lemma ensureFileScanned_index:
  assumes "getSourceFile prog name = Some sf"
    and "name @ ''::'' @ versionText (version sf) \<notin> set (scannedFiles st)"
  shows "getExportDirective (stores (ensureFileScanned (Some prog) name st)) name e
           = map_of (exportDirectives (scanFileDirectives sf prog)) e"
proof -
  let ?exports = "exportDirectives (scanFileDirectives sf prog)"
  have wf: "distinct (map fst ?exports)" "\<forall>entry \<in> set ?exports. snd entry \<noteq> []"
    using scan_exports_wellformed by blast+
  have "map_of (exportMap (stores (ensureFileScanned (Some prog) name st))) (exportKey name e)
          = map_of ?exports e"
    using assms
    by (simp add: ensureFileScanned_def Let_def fold_setExportDirective
        map_of_fold_update [OF wf(1)] map_of_cleared split: option.splits)
  moreover have "d \<noteq> []" if "map_of ?exports e = Some d" for d
    using wf(2) map_of_SomeD [OF that] by auto
  ultimately show ?thesis
    by (cases "map_of ?exports e") (auto simp: getExportDirective_def Let_def truthy_def)
qed


text \<open>
  C2, as stated: on a miss of the export map the resolver scans the resolved module and
  puts its export directives into the export map. In the example, \<open>test.ts\<close> imports \<open>f\<close> from
  \<open>./a\<close> and both caches are empty. The resolver finds the directive \<open>use client\<close> of \<open>f\<close> by
  scanning \<open>a.ts\<close>, and afterwards the export map has no directive for \<open>f\<close> of \<open>a.ts\<close>: it is
  still empty.
\<close>

theorem getImportDirective_index_counterexample:
  "getExportDirective emptyCaches ''a.ts'' ''f'' = None
   \<and> map_of (exportDirectives (scanFileDirectives actionsFile importingProgram)) ''f''
       = Some ''use client''
   \<and> fst (getImportDirective exampleResolution importingProgram
         [ImportSpecifier None ''f'' (Some ''./a'') ''test.ts''] emptyCaches)
       = Some \<lparr>directiveName = ''use client'', symbolName = ''f'', isModuleLevel = False\<rparr>
   \<and> getExportDirective
         (snd (getImportDirective exampleResolution importingProgram
            [ImportSpecifier None ''f'' (Some ''./a'') ''test.ts''] emptyCaches))
         ''a.ts'' ''f'' = None
   \<and> exportMap
         (snd (getImportDirective exampleResolution importingProgram
            [ImportSpecifier None ''f'' (Some ''./a'') ''test.ts''] emptyCaches)) = []"
proof -
  have src: "getSourceFile importingProgram ''a.ts'' = Some actionsFile"
    by (simp add: getSourceFile_def importingProgram_def exampleFile_def actionsFile_def)
  have miss: "getExportDirective emptyCaches ''a.ts'' ''f'' = None"
    by (simp add: getExportDirective_def emptyCaches_def truthy_def)
  have cached: "getCachedDirectives
      (setCachedDirectives actionsFile [] [(''f'', ''use client'')] emptyCaches) actionsFile
      = Some \<lparr>moduleDirectives = [], exportDirectives = [(''f'', ''use client'')]\<rparr>"
    by (simp add: getCachedDirectives_def setCachedDirectives_def)
  have lookup: "lookupImportedDirective importingProgram ''a.ts'' ''f'' emptyCaches
      = (Some ''use client'',
         setCachedDirectives actionsFile [] [(''f'', ''use client'')] emptyCaches)"
    by (simp add: lookupImportedDirective_def miss src scan_actionsFile truthy_def)
  have result: "getImportDirective exampleResolution importingProgram
      [ImportSpecifier None ''f'' (Some ''./a'') ''test.ts''] emptyCaches
      = (Some \<lparr>directiveName = ''use client'', symbolName = ''f'', isModuleLevel = False\<rparr>,
         setCachedDirectives actionsFile [] [(''f'', ''use client'')] emptyCaches)"
    by (simp add: importTarget_def exampleResolution_def lookup describeImport_def src cached)
  show ?thesis
    unfolding result
    by (simp add: miss scan_actionsFile getExportDirective_def setCachedDirectives_def
        emptyCaches_def truthy_def)
qed

text \<open>
  C2, amended: on a miss of the export map for a module that the program has, the resolver
  scans the resolved module, stores the scan result in the per-file cache of that module and
  takes the directive of the exported name from the export directives of the scan. It leaves
  the export map as it was: neither this lookup nor \<open>getImportDirective\<close> as a whole writes to
  it. The export map is written by \<open>ensureFileScanned\<close>: after it has scanned a module that
  was not scanned at this version, the export map gives, for every exported name, the directive
  that the scan of the module gives.
\<close>

theorem lookupImportedDirective_miss:
  assumes "getExportDirective c resolvedModule exportedName = None"
    and "getSourceFile prog resolvedModule = Some importedSourceFile"
  shows "fst (lookupImportedDirective prog resolvedModule exportedName c)
           = (let found = map_of (exportDirectives (scanFileDirectives importedSourceFile prog))
                            exportedName
              in if truthy found then found else None)
    \<and> getCachedDirectives (snd (lookupImportedDirective prog resolvedModule exportedName c))
          importedSourceFile
        = Some (scanFileDirectives importedSourceFile prog)
    \<and> exportMap (snd (lookupImportedDirective prog resolvedModule exportedName c)) = exportMap c
    \<and> exportMap (snd (getImportDirective resolveModuleName prog declarations c)) = exportMap c
    \<and> (resolvedModule @ ''::'' @ versionText (version importedSourceFile)
           \<notin> set (scannedFiles st) \<longrightarrow>
         getExportDirective (stores (ensureFileScanned (Some prog) resolvedModule st))
             resolvedModule exportedName
           = map_of (exportDirectives (scanFileDirectives importedSourceFile prog)) exportedName)"
  using assms ensureFileScanned_index [OF assms(2), of st exportedName]
  by (simp add: lookupImportedDirective_def getImportDirective_exportMap truthy_def Let_def
      getCachedDirectives_def setCachedDirectives_def)

theorem lookupImportedDirective_miss_witness:
  "getExportDirective emptyCaches ''a.ts'' ''f'' = None
   \<and> getSourceFile importingProgram ''a.ts'' = Some actionsFile
   \<and> fst (lookupImportedDirective importingProgram ''a.ts'' ''f'' emptyCaches) = Some ''use client''
   \<and> getCachedDirectives (snd (lookupImportedDirective importingProgram ''a.ts'' ''f'' emptyCaches))
        actionsFile
      = Some \<lparr>moduleDirectives = [], exportDirectives = [(''f'', ''use client'')]\<rparr>
   \<and> exportMap (snd (lookupImportedDirective importingProgram ''a.ts'' ''f'' emptyCaches)) = []
   \<and> getExportDirective
         (stores (ensureFileScanned (Some importingProgram) ''a.ts''
                    \<lparr>scannedFiles = [], stores = emptyCaches\<rparr>))
         ''a.ts'' ''f'' = Some ''use client''"
proof -
  have src: "getSourceFile importingProgram ''a.ts'' = Some actionsFile"
    by (simp add: getSourceFile_def importingProgram_def exampleFile_def actionsFile_def)
  have miss: "getExportDirective emptyCaches ''a.ts'' ''f'' = None"
    by (simp add: getExportDirective_def emptyCaches_def truthy_def)
  from lookupImportedDirective_miss [OF miss src,
      where st = "\<lparr>scannedFiles = [], stores = emptyCaches\<rparr>"
        and resolveModuleName = exampleResolution and declarations = "[]"] miss src
  show ?thesis
    by (simp add: scan_actionsFile truthy_def emptyCaches_def)
qed

end
